theory Spec2Isabelle
  imports Complex_Main "HOL-Library.Monad_Syntax"
begin

section \<open>Numbers and vectors\<close>

text \<open>
  JavaScript numbers are modelled as exact reals: no rounding, no infinities, and no NaN
  except where a read outside a buffer produces one, which is written out at that place.
  Array indices are integers. The 32-bit conversions of the bitwise operators
  \<^verbatim>\<open>>>\<close> and \<^verbatim>\<open>~\<close> are written out.
\<close>

type_synonym vec2 = "real \<times> real"
type_synonym vec3 = "real \<times> real \<times> real"

definition toInt32 :: "int \<Rightarrow> int" where
  "toInt32 x = (x + 2 ^ 31) mod 2 ^ 32 - 2 ^ 31"

definition sar1 :: "int \<Rightarrow> int" where
  \<comment> \<open>\<^verbatim>\<open>x >> 1\<close>: ToInt32, then arithmetic shift by one bit.\<close>
  "sar1 x = toInt32 x div 2"

definition bitNot :: "int \<Rightarrow> int" where
  \<comment> \<open>\<^verbatim>\<open>~x\<close>: ToInt32, then bitwise complement.\<close>
  "bitNot x = - toInt32 x - 1"

section \<open>utils/binarySearch.ts\<close>

text \<open>
  The result of a search is the returned number. Reading \<^verbatim>\<open>sortedArray[midIndex]\<close> outside
  the array yields \<^verbatim>\<open>undefined\<close>, which is not a value of the element type; the model stops
  there with \<open>UndefinedElement\<close>. The loop has no bound of its own, so it is a partial
  function: \<open>None\<close> stands for a loop that never returns.
\<close>

datatype search_result = Index int | UndefinedElement int

partial_function (option) binarySearch_loop ::
  "'a list \<Rightarrow> 'a \<Rightarrow> ('a \<Rightarrow> 'a \<Rightarrow> real) \<Rightarrow> int \<Rightarrow> int \<Rightarrow> search_result option" where
  "binarySearch_loop sortedArray target comparator startIndex endIndex =
     (if startIndex \<le> endIndex then
        (let midIndex = startIndex + sar1 (endIndex - startIndex) in
         if 0 \<le> midIndex \<and> midIndex < int (length sortedArray) then
           (let comparisonResult = comparator target (sortedArray ! nat midIndex) in
            if comparisonResult = 0 then Some (Index midIndex)
            else if comparisonResult > 0 then
              binarySearch_loop sortedArray target comparator (midIndex + 1) endIndex
            else
              binarySearch_loop sortedArray target comparator startIndex (midIndex - 1))
         else Some (UndefinedElement midIndex))
      else Some (Index (bitNot startIndex)))"

definition binarySearch :: "'a list \<Rightarrow> 'a \<Rightarrow> ('a \<Rightarrow> 'a \<Rightarrow> real) \<Rightarrow> search_result option" where
  "binarySearch sortedArray target comparator =
     binarySearch_loop sortedArray target comparator 0 (int (length sortedArray) - 1)"

text \<open>
  The comparator contract of the documentation comment: zero for equal, negative when the
  first argument is smaller, positive when it is greater. For the search to make sense the
  signs have to form a total preorder.
\<close>

definition comparator_ok :: "('a \<Rightarrow> 'a \<Rightarrow> real) \<Rightarrow> bool" where
  "comparator_ok comparator \<longleftrightarrow>
     (\<forall>a b. (comparator a b < 0) = (0 < comparator b a)) \<and>
     (\<forall>a b c. comparator a b \<le> 0 \<longrightarrow> comparator b c \<le> 0 \<longrightarrow> comparator a c \<le> 0)"

definition sorted_by :: "('a \<Rightarrow> 'a \<Rightarrow> real) \<Rightarrow> 'a list \<Rightarrow> bool" where
  "sorted_by comparator xs = sorted_wrt (\<lambda>a b. comparator a b \<le> 0) xs"

definition insertAt :: "nat \<Rightarrow> 'a \<Rightarrow> 'a list \<Rightarrow> 'a list" where
  "insertAt p x xs = take p xs @ x # drop p xs"

definition insertionPoint :: "('a \<Rightarrow> 'a \<Rightarrow> real) \<Rightarrow> 'a list \<Rightarrow> 'a \<Rightarrow> nat" where
  \<comment> \<open>The number of elements strictly below the target.\<close>
  "insertionPoint comparator xs target = length (filter (\<lambda>x. 0 < comparator target x) xs)"

definition partitioned :: "('a \<Rightarrow> 'a \<Rightarrow> real) \<Rightarrow> 'a list \<Rightarrow> 'a \<Rightarrow> nat \<Rightarrow> bool" where
  "partitioned comparator xs target p \<longleftrightarrow>
     p \<le> length xs \<and> (\<forall>i<p. 0 < comparator target (xs ! i)) \<and>
     (\<forall>i. p \<le> i \<longrightarrow> i < length xs \<longrightarrow> comparator target (xs ! i) < 0)"

section \<open>rules/alignmentWrapper.ts\<close>

datatype MoveDirection = FORWARD | BACKWARD

text \<open>
  The host's alignment entity. Its queries with an out-parameter take the caller's
  \<open>target\<close> buffer and give the content of that buffer after the call, which is also the
  value the host returns.
\<close>

record DwgAlignment =
  al_length :: real
  al_modelName :: "string option"
  al_tangentAt :: "vec3 \<Rightarrow> real \<Rightarrow> vec3"
  al_toWCS :: "vec2 \<Rightarrow> vec2 \<Rightarrow> vec2"
  al_fromWCS :: "vec2 \<Rightarrow> vec2 \<Rightarrow> vec2"
  al_elevationAt :: "real \<Rightarrow> real"
  al_toPK :: "real \<Rightarrow> string"

text \<open>
  The wrapper. The field \<open>alignment\<close> is what \<^verbatim>\<open>WeakRef.deref()\<close> gives at the time of a
  query: \<open>None\<close> once the entity has been reclaimed. The length is cached at construction.
\<close>

record AlignmentWrapper =
  alignment :: "DwgAlignment option"
  length_w :: real
  modelName :: string
  direction :: MoveDirection

definition AlignmentWrapper_new :: "DwgAlignment \<Rightarrow> MoveDirection \<Rightarrow> AlignmentWrapper" where
  "AlignmentWrapper_new al dir =
     \<lparr>alignment = Some al, length_w = al_length al,
      modelName = (case al_modelName al of None \<Rightarrow> [] | Some n \<Rightarrow> n),
      direction = dir\<rparr>"

definition vec3_neg :: "vec3 \<Rightarrow> vec3" where
  "vec3_neg v = (case v of (x, y, z) \<Rightarrow> (- x, - y, - z))"

definition tangentAt :: "AlignmentWrapper \<Rightarrow> vec3 \<Rightarrow> real \<Rightarrow> vec3" where
  "tangentAt w target station =
     (case alignment w of
        None \<Rightarrow> target
      | Some al \<Rightarrow>
          if direction w = FORWARD then al_tangentAt al target station
          else vec3_neg (al_tangentAt al target (length_w w - station)))"

definition toWCS :: "AlignmentWrapper \<Rightarrow> vec2 \<Rightarrow> vec2 \<Rightarrow> vec2" where
  "toWCS w target stationOffset =
     (case alignment w of
        None \<Rightarrow> target
      | Some al \<Rightarrow>
          if direction w = FORWARD then al_toWCS al target stationOffset
          else al_toWCS al target (length_w w - fst stationOffset, - snd stationOffset))"

definition fromWCS :: "AlignmentWrapper \<Rightarrow> vec2 \<Rightarrow> vec2 \<Rightarrow> vec2" where
  "fromWCS w target point =
     (case alignment w of
        None \<Rightarrow> target
      | Some al \<Rightarrow>
          if direction w = FORWARD then al_fromWCS al target point
          else (let t = al_fromWCS al target point in (length_w w - fst t, - snd t)))"

definition elevationAt :: "AlignmentWrapper \<Rightarrow> real \<Rightarrow> real" where
  "elevationAt w station =
     (case alignment w of
        None \<Rightarrow> 0
      | Some al \<Rightarrow>
          if direction w = FORWARD then al_elevationAt al station
          else al_elevationAt al (length_w w - station))"

definition toPK :: "AlignmentWrapper \<Rightarrow> real \<Rightarrow> string" where
  "toPK w station =
     (case alignment w of
        None \<Rightarrow> []
      | Some al \<Rightarrow>
          if direction w = FORWARD then al_toPK al station
          else al_toPK al (length_w w - station))"

text \<open>A straight alignment along the x axis, used for concrete instances.\<close>

definition straight :: "real \<Rightarrow> DwgAlignment" where
  "straight len =
     \<lparr>al_length = len, al_modelName = None,
      al_tangentAt = (\<lambda>target station. (1, 0, 0)),
      al_toWCS = (\<lambda>target so. so),
      al_fromWCS = (\<lambda>target p. p),
      al_elevationAt = (\<lambda>station. 0),
      al_toPK = (\<lambda>station. ''PK'')\<rparr>"

section \<open>The host's linear algebra (Math3d)\<close>

definition vec3_sub :: "vec3 \<Rightarrow> vec3 \<Rightarrow> vec3" where
  "vec3_sub a b = (case (a, b) of ((ax, ay, az), (bx, by, bz)) \<Rightarrow> (ax - bx, ay - by, az - bz))"

definition vec3_add :: "vec3 \<Rightarrow> vec3 \<Rightarrow> vec3" where
  "vec3_add a b = (case (a, b) of ((ax, ay, az), (bx, by, bz)) \<Rightarrow> (ax + bx, ay + by, az + bz))"

definition vec3_mul :: "vec3 \<Rightarrow> real \<Rightarrow> vec3" where
  "vec3_mul a k = (case a of (ax, ay, az) \<Rightarrow> (ax * k, ay * k, az * k))"

definition vec3_dot :: "vec3 \<Rightarrow> vec3 \<Rightarrow> real" where
  "vec3_dot a b = (case (a, b) of ((ax, ay, az), (bx, by, bz)) \<Rightarrow> ax * bx + ay * by + az * bz)"

definition vec3_cross :: "vec3 \<Rightarrow> vec3 \<Rightarrow> vec3" where
  "vec3_cross a b =
     (case (a, b) of ((ax, ay, az), (bx, by, bz)) \<Rightarrow>
        (ay * bz - az * by, az * bx - ax * bz, ax * by - ay * bx))"

definition vec3_len :: "vec3 \<Rightarrow> real" where
  "vec3_len a = sqrt (vec3_dot a a)"

definition vec3_distance :: "vec3 \<Rightarrow> vec3 \<Rightarrow> real" where
  "vec3_distance a b = vec3_len (vec3_sub a b)"

definition vec2_dot :: "vec2 \<Rightarrow> vec2 \<Rightarrow> real" where
  "vec2_dot a b = fst a * fst b + snd a * snd b"

type_synonym ray3 = "vec3 \<times> vec3"

definition ray3_make :: "vec3 \<Rightarrow> vec3 \<Rightarrow> ray3" where
  "ray3_make origin dir = (origin, dir)"

definition ray3_at :: "ray3 \<Rightarrow> real \<Rightarrow> vec3" where
  "ray3_at ray t = vec3_add (fst ray) (vec3_mul (snd ray) t)"

text \<open>
  The library functions whose result is not fixed by their name alone are taken as a
  parameter: the closest-approach parameter of one ray to another, the distance of a point
  to a ray, the normalisation of a plane vector (what it does to the zero vector is the
  library's choice), and the matrix operations over the library's matrix type \<open>'m\<close>.
\<close>

record 'm Math3d =
  ray3_closestPointToRay :: "ray3 \<Rightarrow> ray3 \<Rightarrow> real"
  ray3_distanceToPoint :: "ray3 \<Rightarrow> vec3 \<Rightarrow> real"
  vec2_normalize :: "vec2 \<Rightarrow> vec2"
  mat4_mulv3 :: "'m \<Rightarrow> vec3 \<Rightarrow> vec3"
  mat4_inverse :: "'m \<Rightarrow> 'm"

text \<open>
  Modelled from the spec: the Math3d library is not part of the repository. This instance
  follows section 4.2 of the specification (the distance of a point to the infinite line
  of the ray) and the usual closest-approach formula for two lines with unit directions;
  matrices are restricted to translations, given by their offset. It serves to evaluate the
  model at concrete inputs.
\<close>

definition closestPointToRay_ref :: "ray3 \<Rightarrow> ray3 \<Rightarrow> real" where
  "closestPointToRay_ref r1 r2 =
     (let w = vec3_sub (fst r1) (fst r2);
          b = vec3_dot (snd r1) (snd r2);
          d = vec3_dot (snd r1) w;
          e = vec3_dot (snd r2) w
      in if 1 - b * b = 0 then 0 else (b * e - d) / (1 - b * b))"

definition distanceToPoint_ref :: "ray3 \<Rightarrow> vec3 \<Rightarrow> real" where
  "distanceToPoint_ref ray p =
     (let w = vec3_sub p (fst ray);
          foot = vec3_mul (snd ray) (vec3_dot w (snd ray))
      in vec3_len (vec3_sub w foot))"

definition normalize2_ref :: "vec2 \<Rightarrow> vec2" where
  "normalize2_ref v =
     (let l = sqrt (vec2_dot v v) in if l = 0 then (0, 0) else (fst v / l, snd v / l))"

definition Math3d_ref :: "vec3 Math3d" where
  "Math3d_ref =
     \<lparr>ray3_closestPointToRay = closestPointToRay_ref,
      ray3_distanceToPoint = distanceToPoint_ref,
      vec2_normalize = normalize2_ref,
      mat4_mulv3 = (\<lambda>m v. vec3_add v m),
      mat4_inverse = (\<lambda>m. vec3_neg m)\<rparr>"

section \<open>utils/frustum.ts\<close>

definition EPS :: real where
  "EPS = 1 / 1000"

record SegmentFrustum =
  seg_a :: vec3
  seg_b :: vec3

definition frustum_ray :: "SegmentFrustum \<Rightarrow> ray3 \<Rightarrow> ray3" where
  \<comment> \<open>\<^verbatim>\<open>ray(target)\<close>: the target is left as it was when the endpoints coincide.\<close>
  "frustum_ray f target =
     (let dir = vec3_sub (seg_b f) (seg_a f);
          distance = vec3_len dir
      in if distance < EPS then target
         else ray3_make (seg_a f) (vec3_mul dir (1 / distance)))"

definition containsPoint :: "'m Math3d \<Rightarrow> SegmentFrustum \<Rightarrow> vec3 \<Rightarrow> bool" where
  "containsPoint M f point =
     (let ray = frustum_ray f ((0, 0, 0), (0, 0, 0));
          distance = ray3_distanceToPoint M ray point
      in distance < EPS)"

definition intersectSegment :: "'m Math3d \<Rightarrow> SegmentFrustum \<Rightarrow> vec3 \<Rightarrow> vec3 \<Rightarrow> bool" where
  "intersectSegment M f a b =
     (let len = vec3_distance a b in
      if len < EPS then containsPoint M f a
      else
        (let dir = vec3_mul (vec3_sub b a) (1 / len);
             segment = ray3_make a dir;
             ray = frustum_ray f ((0, 0, 0), (0, 0, 0));
             t = ray3_closestPointToRay M segment ray
         in if 0 < t \<or> t > len then False
            else containsPoint M f (ray3_at segment t)))"

text \<open>
  What the specification asks of \<^verbatim>\<open>intersectSegment\<close>: the closest-approach point of the
  segment \<open>(a, b)\<close> lies within the parameter range \<open>[0, length]\<close> and within epsilon of the
  centerline.
\<close>

definition closestApproachTest :: "'m Math3d \<Rightarrow> SegmentFrustum \<Rightarrow> vec3 \<Rightarrow> vec3 \<Rightarrow> bool" where
  "closestApproachTest M f a b =
     (let len = vec3_distance a b;
          segment = ray3_make a (vec3_mul (vec3_sub b a) (1 / len));
          t = ray3_closestPointToRay M segment (frustum_ray f ((0, 0, 0), (0, 0, 0)))
      in 0 \<le> t \<and> t \<le> len \<and> containsPoint M f (ray3_at segment t))"

section \<open>utils/intersect.ts\<close>

definition EPS2 :: real where
  "EPS2 = 1 / 10000000"

text \<open>
  The intersector returns a boolean; the verdict records which \<^verbatim>\<open>return\<close> statement
  produced it, in the order of the source.
\<close>

datatype verdict =
  RejectLength | RejectDeterminant | RejectT | RejectU | RejectV | Hit

definition segment_l2 :: "vec3 \<Rightarrow> vec3 \<Rightarrow> real" where
  "segment_l2 sa sb =
     (case (sa, sb) of ((sax, say, saz), (sbx, sby, sbz)) \<Rightarrow>
        (let mdx = sax - sbx; mdy = say - sby; mdz = saz - sbz
         in mdx * mdx + mdy * mdy + mdz * mdz))"


definition segmentTriangleVerdict :: "vec3 \<Rightarrow> vec3 \<Rightarrow> vec3 \<Rightarrow> vec3 \<Rightarrow> vec3 \<Rightarrow> verdict" where
  "segmentTriangleVerdict sa sb ta tb tc =
     (case (sa, sb) of ((sax, say, saz), (sbx, sby, sbz)) \<Rightarrow>
        (let mdx = sax - sbx; mdy = say - sby; mdz = saz - sbz;
             l2 = mdx * mdx + mdy * mdy + mdz * mdz
         in if l2 < EPS2 then RejectLength
            else
              (let l = sqrt l2;
                   v1 = (mdx / l, mdy / l, mdz / l);
                   v2 = vec3_sub tb ta;
                   v3 = vec3_sub tc ta;
                   v4 = vec3_cross v2 v3;
                   idet = vec3_dot v1 v4
               in if idet < EPS then RejectDeterminant
                  else
                    (let det = 1 / vec3_dot v1 v4;
                         v5 = vec3_sub sa ta;
                         t = det * vec3_dot v5 v4
                     in if t < - EPS \<or> t > l + EPS then RejectT
                        else
                          (let u = det * vec3_dot v5 (vec3_cross v3 v1) in
                           if u < - EPS \<or> u > 1 + EPS then RejectU
                           else
                             (let v = det * vec3_dot v5 (vec3_cross v1 v2) in
                              if v < - EPS \<or> v > 1 + EPS \<or> u + v > 1 + EPS then RejectV
                              else Hit))))))"

definition segmentIntersectsTriangle :: "vec3 \<Rightarrow> vec3 \<Rightarrow> vec3 \<Rightarrow> vec3 \<Rightarrow> vec3 \<Rightarrow> bool" where
  "segmentIntersectsTriangle sa sb ta tb tc = (segmentTriangleVerdict sa sb ta tb tc = Hit)"

text \<open>
  Meshes and models of the host. A geometry holds the flat vertex and index buffers and,
  when loaded, the triangle index \<open>spatial\<close>: \<open>walkSegment a b\<close> is given as the list of the
  triangle numbers it reports, in order. Objects carry their identity (what \<^verbatim>\<open>===\<close>
  compares), their type tag, their layer and, for 3D models, meshes and matrix.
\<close>

record Geometry =
  vertices :: "real list"
  indices :: "nat list"
  spatial :: "(vec3 \<Rightarrow> vec3 \<Rightarrow> nat list) option"

record Mesh =
  geometry :: "Geometry option"

datatype DwgType = DwgType_model3d | DwgType_alignment | DwgType_other

record 'm DwgObject =
  ident :: nat
  dwgType :: DwgType
  layer :: nat
  meshes :: "Mesh list"
  matrix :: 'm

definition readNumber :: "real list \<Rightarrow> nat \<Rightarrow> real option" where
  \<comment> \<open>A read outside a buffer gives \<^verbatim>\<open>undefined\<close>, which arithmetic turns into NaN: \<open>None\<close>.\<close>
  "readNumber buffer k = (if k < length buffer then Some (buffer ! k) else None)"

definition readVertex :: "Geometry \<Rightarrow> nat \<Rightarrow> vec3 option" where
  \<comment> \<open>The vertex named by entry \<open>k\<close> of the index buffer; \<open>None\<close> if a coordinate is NaN.\<close>
  "readVertex g k =
     (if k < length (indices g) then
        (let i3 = indices g ! k * 3 in
         case (readNumber (vertices g) i3, readNumber (vertices g) (i3 + 1),
               readNumber (vertices g) (i3 + 2)) of
           (Some x, Some y, Some z) \<Rightarrow> Some (x, y, z)
         | _ \<Rightarrow> None)
      else None)"

definition triangleHit :: "Geometry \<Rightarrow> vec3 \<Rightarrow> vec3 \<Rightarrow> nat \<Rightarrow> bool" where
  \<comment> \<open>With a NaN coordinate in the triangle every comparison after the length guard is
      false, so the intersector falls through to \<^verbatim>\<open>return true\<close>.\<close>
  "triangleHit g sa sb triangle =
     (let t3 = triangle * 3 in
      case (readVertex g t3, readVertex g (t3 + 1), readVertex g (t3 + 2)) of
        (Some ta, Some tb, Some tc) \<Rightarrow> segmentIntersectsTriangle sa sb ta tb tc
      | _ \<Rightarrow> \<not> segment_l2 sa sb < EPS2)"

definition modelIntersectsSegment ::
  "'m Math3d \<Rightarrow> 'm DwgObject \<Rightarrow> 'm \<Rightarrow> vec3 \<Rightarrow> vec3 \<Rightarrow> bool" where
  "modelIntersectsSegment M model inv_m a b =
     (let v7 = mat4_mulv3 M inv_m a;
          v8 = mat4_mulv3 M inv_m b
      in list_ex
           (\<lambda>mesh. case geometry mesh of
                      None \<Rightarrow> False
                    | Some g \<Rightarrow>
                        (case spatial g of
                           None \<Rightarrow> False
                         | Some walkSegment \<Rightarrow> list_ex (triangleHit g v7 v8) (walkSegment v7 v8)))
           (meshes model))"

section \<open>rules/objects.ts: the centre of a model\<close>

definition addNumber :: "real option \<Rightarrow> real option \<Rightarrow> real option" where
  "addNumber a b = (case (a, b) of (Some x, Some y) \<Rightarrow> Some (x + y) | _ \<Rightarrow> None)"

type_synonym center_acc = "real option \<times> real option \<times> real option \<times> nat"

fun sumIndices :: "real list \<Rightarrow> nat list \<Rightarrow> center_acc \<Rightarrow> center_acc" where
  "sumIndices vs [] acc = acc"
| "sumIndices vs (i # rest) (x, y, z, n) =
     sumIndices vs rest
       (addNumber x (readNumber vs (i * 3)),
        addNumber y (readNumber vs (i * 3 + 1)),
        addNumber z (readNumber vs (i * 3 + 2)),
        n + 1)"

fun sumMeshes :: "Mesh list \<Rightarrow> bool \<times> center_acc \<Rightarrow> bool \<times> center_acc" where
  "sumMeshes [] s = s"
| "sumMeshes (mesh # rest) (success, acc) =
     (case geometry mesh of
        None \<Rightarrow> sumMeshes rest (success, acc)
      | Some g \<Rightarrow> sumMeshes rest (True, sumIndices (vertices g) (indices g) acc))"

text \<open>
  \<^verbatim>\<open>modelCenter\<close> returns \<^verbatim>\<open>false\<close> (\<open>NoCenter\<close>) or writes the centre and returns
  \<^verbatim>\<open>true\<close>; \<open>CenterNaN\<close> is the case where a read outside a vertex buffer has made the
  centre NaN.
\<close>

datatype center = NoCenter | CenterNaN | Center vec3

definition modelCenter :: "'m Math3d \<Rightarrow> 'm DwgObject \<Rightarrow> center" where
  "modelCenter M model =
     (case sumMeshes (meshes model) (False, Some 0, Some 0, Some 0, 0) of
        (success, x, y, z, n) \<Rightarrow>
          if n = 0 then NoCenter
          else if \<not> success then NoCenter
          else
            (case (x, y, z) of
               (Some sx, Some sy, Some sz) \<Rightarrow>
                 Center (mat4_mulv3 M (matrix model) (sx / real n, sy / real n, sz / real n))
             | _ \<Rightarrow> CenterNaN))"

text \<open>
  The vertices an index buffer refers to, one per index entry, and their plain mean: what
  \<^verbatim>\<open>modelCenter\<close> averages when every index is in range.
\<close>

definition geometries :: "'m DwgObject \<Rightarrow> Geometry list" where
  "geometries model = concat (map (\<lambda>mesh. case geometry mesh of None \<Rightarrow> [] | Some g \<Rightarrow> [g]) (meshes model))"

definition indicesInRange :: "Geometry \<Rightarrow> bool" where
  "indicesInRange g = list_all (\<lambda>i. i * 3 + 2 < length (vertices g)) (indices g)"

definition vertexAt :: "real list \<Rightarrow> nat \<Rightarrow> vec3" where
  "vertexAt vs i = (vs ! (i * 3), vs ! (i * 3 + 1), vs ! (i * 3 + 2))"

definition referencedVertices :: "'m DwgObject \<Rightarrow> vec3 list" where
  "referencedVertices model =
     concat (map (\<lambda>g. map (vertexAt (vertices g)) (indices g)) (geometries model))"

definition vec3_sum :: "vec3 list \<Rightarrow> vec3" where
  "vec3_sum ps = foldr vec3_add ps (0, 0, 0)"

definition vertexMean :: "vec3 list \<Rightarrow> vec3" where
  "vertexMean ps = vec3_mul (vec3_sum ps) (1 / real (length ps))"

text \<open>
  The centroid the specification describes: the mean of the corners of all triangles
  (consecutive triples of referenced vertices), each triangle weighted by its area.
\<close>

fun trianglesOf :: "vec3 list \<Rightarrow> (vec3 \<times> vec3 \<times> vec3) list" where
  "trianglesOf (a # b # c # rest) = (a, b, c) # trianglesOf rest"
| "trianglesOf _ = []"

definition triangleArea :: "vec3 \<times> vec3 \<times> vec3 \<Rightarrow> real" where
  "triangleArea t = (case t of (a, b, c) \<Rightarrow> vec3_len (vec3_cross (vec3_sub b a) (vec3_sub c a)) / 2)"

definition areaWeightedMean :: "(vec3 \<times> vec3 \<times> vec3) list \<Rightarrow> vec3" where
  "areaWeightedMean ts =
     vec3_mul
       (vec3_sum (map (\<lambda>t. case t of (a, b, c) \<Rightarrow>
                         vec3_mul (vec3_add a (vec3_add b c)) (triangleArea t / 3)) ts))
       (1 / sum_list (map triangleArea ts))"

text \<open>A model with two triangles of different area in one mesh, at the origin.\<close>

definition twoTriangles :: "vec3 DwgObject" where
  "twoTriangles =
     \<lparr>ident = 1, dwgType = DwgType_model3d, layer = 0,
      meshes = [\<lparr>geometry = Some
         \<lparr>vertices = [0, 0, 0,  2, 0, 0,  0, 1, 0,  3, 0, 0,  4, 0, 0,  3, 1, 0],
          indices = [0, 1, 2, 3, 4, 5], spatial = None\<rparr>\<rparr>],
      matrix = (0, 0, 0)\<rparr>"

section \<open>The host's spatial index\<close>

text \<open>
  Modelled from the spec: \<^verbatim>\<open>selectableObjects(frustum, predicate)\<close> belongs to the host.
  Following section 6 of the specification it is the lazy sequence of the candidates the
  index holds for the query volume, the predicate being evaluated on each; \<open>index\<close> gives
  the candidates of a volume in the order the host reports them.
\<close>

definition selectableObjects ::
  "(SegmentFrustum \<Rightarrow> 'm DwgObject list) \<Rightarrow> SegmentFrustum \<Rightarrow> ('m DwgObject \<Rightarrow> bool) \<Rightarrow>
   'm DwgObject list" where
  "selectableObjects index frustum predicate = filter predicate (index frustum)"

section \<open>The station loop of both rules\<close>

text \<open>
  \<^verbatim>\<open>for (let station = 0; station <= length; station += step) body\<close>, started at any
  station. Nothing in the source bounds the number of rounds (a step that is not positive
  never leaves the loop), and the body of the path-to-path rule contains a loop of the same
  kind, so both the loop and its body have an optional result.
\<close>

partial_function (option) stationLoop ::
  "real \<Rightarrow> real \<Rightarrow> (real \<Rightarrow> 's \<Rightarrow> 's option) \<Rightarrow> real \<Rightarrow> 's \<Rightarrow> 's option" where
  "stationLoop step len body station st =
     (if station \<le> len then
        Option.bind (body station st) (\<lambda>st'. stationLoop step len body (station + step) st')
      else Some st)"

text \<open>The state after the first \<open>k\<close> stations \<open>0, step, 2 step, \<dots>\<close> have been handled.\<close>

primrec iterStations :: "(real \<Rightarrow> 's \<Rightarrow> 's option) \<Rightarrow> real \<Rightarrow> 's \<Rightarrow> nat \<Rightarrow> 's option" where
  "iterStations body step st 0 = Some st"
| "iterStations body step st (Suc k) =
     Option.bind (iterStations body step st k) (body (real k * step))"

definition stationCount :: "real \<Rightarrow> real \<Rightarrow> nat" where
  \<comment> \<open>The number of stations \<open>k * step \<le> len\<close>, for a positive step.\<close>
  "stationCount step len = (if len < 0 then 0 else nat \<lfloor>len / step\<rfloor> + 1)"

section \<open>Violation ranges of a sequence of stations\<close>

text \<open>
  The maximal runs of consecutive violation stations among the first \<open>k\<close> stations, by
  station number: the run still open, if any, and the closed runs \<open>(first, last)\<close> in the
  order they were closed.
\<close>

primrec runs :: "(nat \<Rightarrow> bool) \<Rightarrow> nat \<Rightarrow> nat option \<times> (nat \<times> nat) list" where
  "runs V 0 = (None, [])"
| "runs V (Suc k) =
     (case runs V k of
        (opened, finished) \<Rightarrow>
          if V k then (case opened of None \<Rightarrow> (Some k, finished) | Some i \<Rightarrow> (Some i, finished))
          else (case opened of None \<Rightarrow> (None, finished) | Some i \<Rightarrow> (None, finished @ [(i, k - 1)])))"

definition allRuns :: "(nat \<Rightarrow> bool) \<Rightarrow> nat \<Rightarrow> (nat \<times> nat) list" where
  "allRuns V n =
     (case runs V n of (None, finished) \<Rightarrow> finished | (Some i, finished) \<Rightarrow> finished @ [(i, n - 1)])"

section \<open>rules/objects.ts: the path-to-object sweep\<close>

datatype Side = LEFT | RIGHT | BOTH

text \<open>
  The numeric fields the two rule objects have in common, and the two rules. The layer
  filters are evaluated by the host; their results are inputs of the sweeps.
\<close>

record VisibilityRule =
  viewPointOffset :: real
  viewPointElevation :: real
  viewPointStep :: real
  viewDistance :: real

record ObjectsVisibilityRule = VisibilityRule +
  side :: Side

record AlignmentVisibilityRule = VisibilityRule +
  objectOffset :: real
  objectElevation :: real
  objectStep :: real

text \<open>
  A diagnostic record: the key of \<^verbatim>\<open>messages\<close> it is pushed under, the two chainage labels
  of its message, and the identities held by its \<^verbatim>\<open>WeakSet\<close> of obstacles.
\<close>

record Diagnostic =
  uri :: string
  labels :: "string \<times> string"
  obstacles :: "nat set"

record ObjectVisibilityDiagnostic = Diagnostic +
  observed :: nat
  rangeStart :: real
  rangeEnd :: real

record AlignmentVisibilityDiagnostic = Diagnostic +
  keyFrames :: "(real \<times> real) list"

definition observerPoint :: "AlignmentWrapper \<Rightarrow> 'r VisibilityRule_scheme \<Rightarrow> vec3 \<Rightarrow> real \<Rightarrow> vec3" where
  \<comment> \<open>The buffer \<^verbatim>\<open>viewPoint\<close> after \<^verbatim>\<open>toWCS\<close> has written its first two entries and the
      elevation its third; both rules compute it the same way.\<close>
  "observerPoint w rule viewPoint0 station =
     (case viewPoint0 of (x, y, z) \<Rightarrow>
        (case toWCS w (x, y) (station, viewPointOffset rule) of (wx, wy) \<Rightarrow>
           (wx, wy, elevationAt w station + viewPointElevation rule)))"

definition sideExcluded :: "'r ObjectsVisibilityRule_scheme \<Rightarrow> real \<Rightarrow> bool" where
  "sideExcluded rule offset \<longleftrightarrow>
     (side rule = LEFT \<and> offset > 0) \<or> (side rule = RIGHT \<and> offset < 0)"

definition objectsObstaclePredicate ::
  "'m Math3d \<Rightarrow> 'm DwgObject \<Rightarrow> vec3 \<Rightarrow> vec3 \<Rightarrow> 'm DwgObject \<Rightarrow> bool" where
  \<comment> \<open>The inverse matrix comes from a cache keyed by the model; it is the inverse of the
      model's matrix either way.\<close>
  "objectsObstaclePredicate M object viewPoint objectCenter obj =
     (if ident obj = ident object \<or> dwgType obj \<noteq> DwgType_model3d then False
      else modelIntersectsSegment M obj (mat4_inverse M (matrix obj)) viewPoint objectCenter)"

text \<open>
  One station of the sweep, up to the obstacle query: the buffers \<^verbatim>\<open>tg\<close> and
  \<^verbatim>\<open>viewPoint\<close> as they are left, the flag \<^verbatim>\<open>outOfView\<close> and the obstacles the query
  yields (none when the station is out of view, where no query is made).
\<close>

definition objectsObserve ::
  "'m Math3d \<Rightarrow> (SegmentFrustum \<Rightarrow> 'm DwgObject list) \<Rightarrow> AlignmentWrapper \<Rightarrow>
   'r ObjectsVisibilityRule_scheme \<Rightarrow> 'm DwgObject \<Rightarrow> vec3 \<Rightarrow> real \<Rightarrow>
   vec3 \<times> vec3 \<Rightarrow> real \<Rightarrow> (vec3 \<times> vec3) \<times> bool \<times> 'm DwgObject list" where
  "objectsObserve M index w rule object objectCenter objectStation bufs station =
     (case bufs of (tg0, viewPoint0) \<Rightarrow>
        (let tg = (case tangentAt w tg0 station of (x, y, z) \<Rightarrow>
                     (case vec2_normalize M (x, y) of (nx, ny) \<Rightarrow> (nx, ny, z)));
             viewPoint = observerPoint w rule viewPoint0 station;
             dirv = vec3_sub objectCenter viewPoint;
             distance = vec3_len dirv;
             outOfView1 = (distance > viewDistance rule);
             outOfView2 =
               (if \<not> outOfView1 then
                  (let viewDirection = vec2_normalize M (fst dirv, fst (snd dirv));
                       cosv = vec2_dot (fst tg, fst (snd tg)) viewDirection
                   in cosv < 0)
                else outOfView1);
             outOfView = (if \<not> outOfView2 then objectStation < station else outOfView2);
             found =
               (if \<not> outOfView then
                  selectableObjects index \<lparr>seg_a = viewPoint, seg_b = objectCenter\<rparr>
                    (objectsObstaclePredicate M object viewPoint objectCenter)
                else [])
         in ((tg, viewPoint), outOfView, found)))"

record ObjectsSweep =
  o_tg :: vec3
  o_viewPoint :: vec3
  o_rangeStart :: real
  o_rangeEnd :: real
  o_obstaclesAtRange :: "nat set"
  o_collection :: "ObjectVisibilityDiagnostic list"

definition objectsDiagnostic ::
  "AlignmentWrapper \<Rightarrow> 'm DwgObject \<Rightarrow> ObjectsSweep \<Rightarrow> real \<Rightarrow> ObjectVisibilityDiagnostic" where
  \<comment> \<open>The record pushed when a range is closed; \<open>toStation\<close> is the station named as its end in
      the message.\<close>
  "objectsDiagnostic w object st toStation =
     \<lparr>uri = modelName w,
      labels = (toPK w (o_rangeStart st), toPK w toStation),
      obstacles = o_obstaclesAtRange st,
      observed = ident object,
      rangeStart = o_rangeStart st,
      rangeEnd = o_rangeEnd st\<rparr>"

definition objectsStation ::
  "'m Math3d \<Rightarrow> (SegmentFrustum \<Rightarrow> 'm DwgObject list) \<Rightarrow> AlignmentWrapper \<Rightarrow>
   'r ObjectsVisibilityRule_scheme \<Rightarrow> 'm DwgObject \<Rightarrow> vec3 \<Rightarrow> real \<Rightarrow>
   real \<Rightarrow> ObjectsSweep \<Rightarrow> ObjectsSweep option" where
  "objectsStation M index w rule object objectCenter objectStation station st =
     (case objectsObserve M index w rule object objectCenter objectStation
             (o_tg st, o_viewPoint st) station of
        ((tg, viewPoint), outOfView, found) \<Rightarrow>
          (let st1 = st\<lparr>o_tg := tg, o_viewPoint := viewPoint\<rparr> in
           if outOfView \<or> found = [] then
             (if o_rangeStart st1 \<ge> 0 then
                Some (st1\<lparr>o_collection := o_collection st1 @ [objectsDiagnostic w object st1 station],
                          o_rangeStart := - 1, o_rangeEnd := - 1, o_obstaclesAtRange := {}\<rparr>)
              else Some st1)
           else
             Some (st1\<lparr>o_rangeStart := (if o_rangeStart st1 < 0 then station else o_rangeStart st1),
                       o_rangeEnd := station,
                       o_obstaclesAtRange := o_obstaclesAtRange st1 \<union> ident ` set found\<rparr>)))"

text \<open>
  The sweep of one alignment for one object whose centre is known. It takes the shared
  buffers \<^verbatim>\<open>stationOffset\<close>, \<^verbatim>\<open>tg\<close> and \<^verbatim>\<open>viewPoint\<close> and gives them back with the
  records pushed, in order.
\<close>

definition objectsSweep ::
  "'m Math3d \<Rightarrow> (SegmentFrustum \<Rightarrow> 'm DwgObject list) \<Rightarrow> 'r ObjectsVisibilityRule_scheme \<Rightarrow>
   'm DwgObject \<Rightarrow> vec3 \<Rightarrow> AlignmentWrapper \<Rightarrow> vec2 \<times> vec3 \<times> vec3 \<Rightarrow>
   ((vec2 \<times> vec3 \<times> vec3) \<times> ObjectVisibilityDiagnostic list) option" where
  "objectsSweep M index rule object objectCenter w bufs =
     (case bufs of (stationOffset0, tg0, viewPoint0) \<Rightarrow>
        (let stationOffset = fromWCS w stationOffset0 (fst objectCenter, fst (snd objectCenter));
             objectOffset = snd stationOffset;
             objectStation = fst stationOffset
         in if sideExcluded rule objectOffset
            then Some ((stationOffset, tg0, viewPoint0), [])
            else
              Option.bind
                (stationLoop (viewPointStep rule) (length_w w)
                   (objectsStation M index w rule object objectCenter objectStation) 0
                   \<lparr>o_tg = tg0, o_viewPoint = viewPoint0, o_rangeStart = - 1, o_rangeEnd = - 1,
                    o_obstaclesAtRange = {}, o_collection = []\<rparr>)
                (\<lambda>st. Some ((stationOffset, o_tg st, o_viewPoint st),
                   (if o_rangeStart st \<ge> 0
                    then o_collection st @ [objectsDiagnostic w object st (length_w w)]
                    else o_collection st)))))"

text \<open>
  The body of the loop over the objects: an object without a centre is passed over; a
  centre that is NaN is outside this model of numbers and reported as such.
\<close>

datatype scan_error = CenterIsNaN

fun objectsAlignments ::
  "'m Math3d \<Rightarrow> (SegmentFrustum \<Rightarrow> 'm DwgObject list) \<Rightarrow> 'r ObjectsVisibilityRule_scheme \<Rightarrow>
   'm DwgObject \<Rightarrow> vec3 \<Rightarrow> AlignmentWrapper list \<Rightarrow>
   (vec2 \<times> vec3 \<times> vec3) \<times> ObjectVisibilityDiagnostic list \<Rightarrow>
   ((vec2 \<times> vec3 \<times> vec3) \<times> ObjectVisibilityDiagnostic list) option" where
  "objectsAlignments M index rule object objectCenter [] acc = Some acc"
| "objectsAlignments M index rule object objectCenter (w # ws) (bufs, pushed) =
     Option.bind (objectsSweep M index rule object objectCenter w bufs)
       (\<lambda>(bufs', ds). objectsAlignments M index rule object objectCenter ws (bufs', pushed @ ds))"

definition objectsObject ::
  "'m Math3d \<Rightarrow> (SegmentFrustum \<Rightarrow> 'm DwgObject list) \<Rightarrow> 'r ObjectsVisibilityRule_scheme \<Rightarrow>
   AlignmentWrapper list \<Rightarrow> 'm DwgObject \<Rightarrow>
   (vec2 \<times> vec3 \<times> vec3) \<times> ObjectVisibilityDiagnostic list \<Rightarrow>
   (scan_error + (vec2 \<times> vec3 \<times> vec3) \<times> ObjectVisibilityDiagnostic list) option" where
  "objectsObject M index rule alignments object acc =
     (case modelCenter M object of
        NoCenter \<Rightarrow> Some (Inr acc)
      | CenterNaN \<Rightarrow> Some (Inl CenterIsNaN)
      | Center objectCenter \<Rightarrow>
          map_option Inr (objectsAlignments M index rule object objectCenter alignments acc))"

section \<open>rules/alignment.ts: the path-to-path sweep\<close>

definition alignmentObstaclePredicate ::
  "'m Math3d \<Rightarrow> nat set \<Rightarrow> vec3 \<Rightarrow> vec3 \<Rightarrow> 'm DwgObject \<Rightarrow> bool" where
  "alignmentObstaclePredicate M obstacleLayers viewPoint objectPoint obj =
     (if dwgType obj \<noteq> DwgType_model3d \<or> layer obj \<notin> obstacleLayers then False
      else modelIntersectsSegment M obj (mat4_inverse M (matrix obj)) viewPoint objectPoint)"

text \<open>
  The inner loop over the target stations, from \<open>objectStation\<close> on. Its result: the flag
  \<^verbatim>\<open>hasObstacles\<close>, the value of \<^verbatim>\<open>objectStation\<close> and of the buffer \<^verbatim>\<open>objectPoint\<close> when
  the loop is left, and the obstacles of the query that ended it.
\<close>

partial_function (option) targetLoop ::
  "'m Math3d \<Rightarrow> (SegmentFrustum \<Rightarrow> 'm DwgObject list) \<Rightarrow> nat set \<Rightarrow> AlignmentWrapper \<Rightarrow>
   'r AlignmentVisibilityRule_scheme \<Rightarrow> vec3 \<Rightarrow> real \<Rightarrow> vec3 \<Rightarrow>
   (bool \<times> real \<times> vec3 \<times> 'm DwgObject list) option" where
  "targetLoop M index obstacleLayers w rule viewPoint objectStation objectPoint0 =
     (if objectStation \<le> length_w w then
        (let objectPoint = (case objectPoint0 of (x, y, z) \<Rightarrow>
                 (case toWCS w (x, y) (objectStation, objectOffset rule) of (wx, wy) \<Rightarrow>
                    (wx, wy, elevationAt w objectStation + objectElevation rule)));
             distance = vec3_len (vec3_sub objectPoint viewPoint)
         in if distance > viewDistance rule then Some (False, objectStation, objectPoint, [])
            else
              (let found = selectableObjects index \<lparr>seg_a = viewPoint, seg_b = objectPoint\<rparr>
                             (alignmentObstaclePredicate M obstacleLayers viewPoint objectPoint)
               in if found \<noteq> [] then Some (True, objectStation, objectPoint, found)
                  else targetLoop M index obstacleLayers w rule viewPoint
                         (objectStation + objectStep rule) objectPoint))
      else Some (False, objectStation, objectPoint0, []))"

definition pushKeyFrame :: "(real \<times> real) list \<Rightarrow> real \<Rightarrow> real \<Rightarrow> (real \<times> real) list" where
  "pushKeyFrame rangeKeyFrames station objectStation =
     (let n = length rangeKeyFrames in
      if n > 1 \<and> \<bar>snd (rangeKeyFrames ! (n - 1)) - snd (rangeKeyFrames ! (n - 2))\<bar> < 1 / 100
      then rangeKeyFrames[n - 1 := (station, objectStation)]
      else rangeKeyFrames @ [(station, objectStation)])"

record AlignmentSweep =
  a_viewPoint :: vec3
  a_objectPoint :: vec3
  a_rangeStart :: real
  a_rangeKeyFrames :: "(real \<times> real) list"
  a_obstaclesAtStation :: "nat set"
  a_collection :: "AlignmentVisibilityDiagnostic list"

definition alignmentDiagnostic ::
  "AlignmentWrapper \<Rightarrow> AlignmentSweep \<Rightarrow> real \<Rightarrow> AlignmentVisibilityDiagnostic" where
  "alignmentDiagnostic w st toStation =
     \<lparr>uri = modelName w,
      labels = (toPK w (a_rangeStart st), toPK w toStation),
      obstacles = a_obstaclesAtStation st,
      keyFrames = a_rangeKeyFrames st\<rparr>"

text \<open>
  One observer station: the view point, the inner loop, and the range bookkeeping. The
  progress report and the yield to the scheduler once a second change none of this state.
\<close>

definition alignmentObserve ::
  "'m Math3d \<Rightarrow> (SegmentFrustum \<Rightarrow> 'm DwgObject list) \<Rightarrow> nat set \<Rightarrow> AlignmentWrapper \<Rightarrow>
   'r AlignmentVisibilityRule_scheme \<Rightarrow> vec3 \<times> vec3 \<Rightarrow> real \<Rightarrow>
   ((vec3 \<times> vec3) \<times> bool \<times> real \<times> 'm DwgObject list) option" where
  "alignmentObserve M index obstacleLayers w rule bufs station =
     (case bufs of (viewPoint0, objectPoint0) \<Rightarrow>
        (let viewPoint = observerPoint w rule viewPoint0 station
         in map_option
              (\<lambda>(hasObstacles, objectStation, objectPoint, found).
                 ((viewPoint, objectPoint), hasObstacles, objectStation, found))
              (targetLoop M index obstacleLayers w rule viewPoint
                 (station + objectStep rule) objectPoint0)))"

definition alignmentStation ::
  "'m Math3d \<Rightarrow> (SegmentFrustum \<Rightarrow> 'm DwgObject list) \<Rightarrow> nat set \<Rightarrow> AlignmentWrapper \<Rightarrow>
   'r AlignmentVisibilityRule_scheme \<Rightarrow> real \<Rightarrow> AlignmentSweep \<Rightarrow> AlignmentSweep option" where
  "alignmentStation M index obstacleLayers w rule station st =
     Option.bind
       (alignmentObserve M index obstacleLayers w rule (a_viewPoint st, a_objectPoint st) station)
       (\<lambda>((viewPoint, objectPoint), hasObstacles, objectStation, found).
          (let st1 = st\<lparr>a_viewPoint := viewPoint, a_objectPoint := objectPoint,
                        a_obstaclesAtStation := a_obstaclesAtStation st \<union> ident ` set found\<rparr>
           in if \<not> hasObstacles then
                (if a_rangeStart st1 \<ge> 0 then
                   Some (st1\<lparr>a_collection := a_collection st1 @ [alignmentDiagnostic w st1 station],
                             a_rangeStart := - 1, a_rangeKeyFrames := [],
                             a_obstaclesAtStation := {}\<rparr>)
                 else Some st1)
              else
                Some (st1\<lparr>a_rangeStart := (if a_rangeStart st1 < 0 then station else a_rangeStart st1),
                          a_rangeKeyFrames :=
                            pushKeyFrame (a_rangeKeyFrames st1) station objectStation\<rparr>)))"

definition alignmentSweep ::
  "'m Math3d \<Rightarrow> (SegmentFrustum \<Rightarrow> 'm DwgObject list) \<Rightarrow> nat set \<Rightarrow>
   'r AlignmentVisibilityRule_scheme \<Rightarrow> AlignmentWrapper \<Rightarrow> vec3 \<times> vec3 \<Rightarrow>
   ((vec3 \<times> vec3) \<times> AlignmentVisibilityDiagnostic list) option" where
  "alignmentSweep M index obstacleLayers rule w bufs =
     Option.bind
       (stationLoop (viewPointStep rule) (length_w w)
          (alignmentStation M index obstacleLayers w rule) 0
          \<lparr>a_viewPoint = fst bufs, a_objectPoint = snd bufs, a_rangeStart = - 1,
           a_rangeKeyFrames = [], a_obstaclesAtStation = {}, a_collection = []\<rparr>)
       (\<lambda>st. Some ((a_viewPoint st, a_objectPoint st),
          (if a_rangeStart st \<ge> 0
           then a_collection st @ [alignmentDiagnostic w st (length_w w)]
           else a_collection st)))"

section \<open>The stations of a sweep, by number\<close>

text \<open>
  For stating what a sweep does: the shared buffers before station number \<open>k\<close> (the
  station \<open>k * step\<close>) and what is observed there, given the observation of one station as
  a function of the buffers and the station.
\<close>

primrec traceBufs :: "('b \<Rightarrow> real \<Rightarrow> 'b \<times> 'o) \<Rightarrow> real \<Rightarrow> 'b \<Rightarrow> nat \<Rightarrow> 'b" where
  "traceBufs obs step b0 0 = b0"
| "traceBufs obs step b0 (Suc k) = fst (obs (traceBufs obs step b0 k) (real k * step))"

definition traceOutcome :: "('b \<Rightarrow> real \<Rightarrow> 'b \<times> 'o) \<Rightarrow> real \<Rightarrow> 'b \<Rightarrow> nat \<Rightarrow> 'o" where
  "traceOutcome obs step b0 k = snd (obs (traceBufs obs step b0 k) (real k * step))"

definition objectsOutOfView ::
  "'m Math3d \<Rightarrow> (SegmentFrustum \<Rightarrow> 'm DwgObject list) \<Rightarrow> AlignmentWrapper \<Rightarrow>
   'r ObjectsVisibilityRule_scheme \<Rightarrow> 'm DwgObject \<Rightarrow> vec3 \<Rightarrow> real \<Rightarrow> vec3 \<times> vec3 \<Rightarrow> nat \<Rightarrow> bool" where
  "objectsOutOfView M index w rule object objectCenter objectStation bufs0 k =
     fst (traceOutcome (objectsObserve M index w rule object objectCenter objectStation)
            (viewPointStep rule) bufs0 k)"

definition objectsFound ::
  "'m Math3d \<Rightarrow> (SegmentFrustum \<Rightarrow> 'm DwgObject list) \<Rightarrow> AlignmentWrapper \<Rightarrow>
   'r ObjectsVisibilityRule_scheme \<Rightarrow> 'm DwgObject \<Rightarrow> vec3 \<Rightarrow> real \<Rightarrow> vec3 \<times> vec3 \<Rightarrow> nat \<Rightarrow>
   'm DwgObject list" where
  "objectsFound M index w rule object objectCenter objectStation bufs0 k =
     snd (traceOutcome (objectsObserve M index w rule object objectCenter objectStation)
            (viewPointStep rule) bufs0 k)"

definition objectsViolation ::
  "'m Math3d \<Rightarrow> (SegmentFrustum \<Rightarrow> 'm DwgObject list) \<Rightarrow> AlignmentWrapper \<Rightarrow>
   'r ObjectsVisibilityRule_scheme \<Rightarrow> 'm DwgObject \<Rightarrow> vec3 \<Rightarrow> real \<Rightarrow> vec3 \<times> vec3 \<Rightarrow> nat \<Rightarrow> bool" where
  \<comment> \<open>The station takes the branch of the source that opens or extends a range.\<close>
  "objectsViolation M index w rule object objectCenter objectStation bufs0 k =
     (\<not> (objectsOutOfView M index w rule object objectCenter objectStation bufs0 k \<or>
         objectsFound M index w rule object objectCenter objectStation bufs0 k = []))"

definition objectsRecord ::
  "AlignmentWrapper \<Rightarrow> 'm DwgObject \<Rightarrow> real \<Rightarrow> (nat \<Rightarrow> 'm DwgObject list) \<Rightarrow> nat \<times> nat \<Rightarrow>
   ObjectVisibilityDiagnostic" where
  \<comment> \<open>The record of the stations number \<open>a\<close> to \<open>b\<close>, closed at the station after \<open>b\<close>.\<close>
  "objectsRecord w object step F p =
     \<lparr>uri = modelName w,
      labels = (toPK w (real (fst p) * step), toPK w (real (snd p + 1) * step)),
      obstacles = (\<Union>j\<in>{fst p..snd p}. ident ` set (F j)),
      observed = ident object,
      rangeStart = real (fst p) * step,
      rangeEnd = real (snd p) * step\<rparr>"

definition objectsStateAt ::
  "'m Math3d \<Rightarrow> (SegmentFrustum \<Rightarrow> 'm DwgObject list) \<Rightarrow> AlignmentWrapper \<Rightarrow>
   'r ObjectsVisibilityRule_scheme \<Rightarrow> 'm DwgObject \<Rightarrow> vec3 \<Rightarrow> real \<Rightarrow> vec3 \<times> vec3 \<Rightarrow> nat \<Rightarrow>
   ObjectsSweep" where
  "objectsStateAt M index w rule object objectCenter objectStation bufs0 k =
     (let step = viewPointStep rule;
          F = objectsFound M index w rule object objectCenter objectStation bufs0;
          b = traceBufs (objectsObserve M index w rule object objectCenter objectStation) step bufs0 k
      in case runs (objectsViolation M index w rule object objectCenter objectStation bufs0) k of
           (cur, fin) \<Rightarrow>
             \<lparr>o_tg = fst b, o_viewPoint = snd b,
              o_rangeStart = (case cur of None \<Rightarrow> - 1 | Some i \<Rightarrow> real i * step),
              o_rangeEnd = (case cur of None \<Rightarrow> - 1 | Some i \<Rightarrow> real (k - 1) * step),
              o_obstaclesAtRange = (case cur of None \<Rightarrow> {} | Some i \<Rightarrow> (\<Union>j\<in>{i..<k}. ident ` set (F j))),
              o_collection = map (objectsRecord w object step F) fin\<rparr>)"

definition alignmentObserved ::
  "'m Math3d \<Rightarrow> (SegmentFrustum \<Rightarrow> 'm DwgObject list) \<Rightarrow> nat set \<Rightarrow> AlignmentWrapper \<Rightarrow>
   'r AlignmentVisibilityRule_scheme \<Rightarrow> vec3 \<times> vec3 \<Rightarrow> real \<Rightarrow>
   (vec3 \<times> vec3) \<times> bool \<times> real \<times> 'm DwgObject list" where
  \<comment> \<open>The observation of a station whose inner loop returns.\<close>
  "alignmentObserved M index obstacleLayers w rule bufs station =
     (case alignmentObserve M index obstacleLayers w rule bufs station of
        None \<Rightarrow> (bufs, False, 0, [])
      | Some r \<Rightarrow> r)"

definition alignmentHasObstacles ::
  "'m Math3d \<Rightarrow> (SegmentFrustum \<Rightarrow> 'm DwgObject list) \<Rightarrow> nat set \<Rightarrow> AlignmentWrapper \<Rightarrow>
   'r AlignmentVisibilityRule_scheme \<Rightarrow> vec3 \<times> vec3 \<Rightarrow> nat \<Rightarrow> bool" where
  "alignmentHasObstacles M index obstacleLayers w rule bufs0 k =
     fst (traceOutcome (alignmentObserved M index obstacleLayers w rule) (viewPointStep rule) bufs0 k)"

definition alignmentTarget ::
  "'m Math3d \<Rightarrow> (SegmentFrustum \<Rightarrow> 'm DwgObject list) \<Rightarrow> nat set \<Rightarrow> AlignmentWrapper \<Rightarrow>
   'r AlignmentVisibilityRule_scheme \<Rightarrow> vec3 \<times> vec3 \<Rightarrow> nat \<Rightarrow> real" where
  \<comment> \<open>The target station at which the inner loop was left.\<close>
  "alignmentTarget M index obstacleLayers w rule bufs0 k =
     fst (snd (traceOutcome (alignmentObserved M index obstacleLayers w rule) (viewPointStep rule) bufs0 k))"

definition alignmentFound ::
  "'m Math3d \<Rightarrow> (SegmentFrustum \<Rightarrow> 'm DwgObject list) \<Rightarrow> nat set \<Rightarrow> AlignmentWrapper \<Rightarrow>
   'r AlignmentVisibilityRule_scheme \<Rightarrow> vec3 \<times> vec3 \<Rightarrow> nat \<Rightarrow> 'm DwgObject list" where
  "alignmentFound M index obstacleLayers w rule bufs0 k =
     snd (snd (traceOutcome (alignmentObserved M index obstacleLayers w rule) (viewPointStep rule) bufs0 k))"

definition rangeFrames :: "real \<Rightarrow> (nat \<Rightarrow> real) \<Rightarrow> nat \<Rightarrow> nat \<Rightarrow> (real \<times> real) list" where
  \<comment> \<open>The keyframes of the stations number \<open>i\<close> up to, not including, \<open>k\<close>.\<close>
  "rangeFrames step T i k = foldl (\<lambda>kfs j. pushKeyFrame kfs (real j * step) (T j)) [] [i..<k]"

definition alignmentRecord ::
  "AlignmentWrapper \<Rightarrow> real \<Rightarrow> (nat \<Rightarrow> real) \<Rightarrow> (nat \<Rightarrow> 'm DwgObject list) \<Rightarrow> nat \<times> nat \<Rightarrow>
   AlignmentVisibilityDiagnostic" where
  "alignmentRecord w step T F p =
     \<lparr>uri = modelName w,
      labels = (toPK w (real (fst p) * step), toPK w (real (snd p + 1) * step)),
      obstacles = (\<Union>j\<in>{fst p..snd p}. ident ` set (F j)),
      keyFrames = rangeFrames step T (fst p) (snd p + 1)\<rparr>"

definition alignmentStateAt ::
  "'m Math3d \<Rightarrow> (SegmentFrustum \<Rightarrow> 'm DwgObject list) \<Rightarrow> nat set \<Rightarrow> AlignmentWrapper \<Rightarrow>
   'r AlignmentVisibilityRule_scheme \<Rightarrow> vec3 \<times> vec3 \<Rightarrow> nat \<Rightarrow> AlignmentSweep" where
  "alignmentStateAt M index obstacleLayers w rule bufs0 k =
     (let step = viewPointStep rule;
          T = alignmentTarget M index obstacleLayers w rule bufs0;
          F = alignmentFound M index obstacleLayers w rule bufs0;
          b = traceBufs (alignmentObserved M index obstacleLayers w rule) step bufs0 k
      in case runs (alignmentHasObstacles M index obstacleLayers w rule bufs0) k of
           (cur, fin) \<Rightarrow>
             \<lparr>a_viewPoint = fst b, a_objectPoint = snd b,
              a_rangeStart = (case cur of None \<Rightarrow> - 1 | Some i \<Rightarrow> real i * step),
              a_rangeKeyFrames = (case cur of None \<Rightarrow> [] | Some i \<Rightarrow> rangeFrames step T i k),
              a_obstaclesAtStation =
                (case cur of None \<Rightarrow> {} | Some i \<Rightarrow> (\<Union>j\<in>{i..<k}. ident ` set (F j))),
              a_collection = map (alignmentRecord w step T F) fin\<rparr>)"

section \<open>The interval of an emitted range\<close>

text \<open>
  The interval of an emitted range. A record of the path-to-object rule carries it in
  \<open>rangeStart\<close> and \<open>rangeEnd\<close>; a record of the path-to-path rule carries it in its
  keyframes, where the playback reads it: the observer station of the first keyframe and
  that of the last.
\<close>

definition firstStation :: "AlignmentVisibilityDiagnostic \<Rightarrow> real" where
  "firstStation d = fst (hd (keyFrames d))"

definition lastStation :: "AlignmentVisibilityDiagnostic \<Rightarrow> real" where
  "lastStation d = fst (last (keyFrames d))"

section \<open>A concrete scene\<close>

text \<open>
  A straight alignment along the x axis, a wall (one triangle in the plane \<open>x = 5/2\<close>,
  facing the start of the alignment) on layer 3, and a road sign whose centre is
  \<open>(3, 0, 0)\<close>. The spatial index reports both objects for every query volume.
\<close>

definition wall :: "vec3 DwgObject" where
  "wall =
     \<lparr>ident = 7, dwgType = DwgType_model3d, layer = 3,
      meshes = [\<lparr>geometry = Some
         \<lparr>vertices = [5/2, - 1, - 1,  5/2, - 1, 2,  5/2, 2, - 1],
          indices = [0, 1, 2], spatial = Some (\<lambda>a b. [0])\<rparr>\<rparr>],
      matrix = (0, 0, 0)\<rparr>"

definition sign :: "vec3 DwgObject" where
  "sign =
     \<lparr>ident = 9, dwgType = DwgType_model3d, layer = 4,
      meshes = [\<lparr>geometry = Some
         \<lparr>vertices = [3, - 1, - 1,  3, - 1, 2,  3, 2, - 1],
          indices = [0, 1, 2], spatial = Some (\<lambda>a b. [0])\<rparr>\<rparr>],
      matrix = (0, 0, 0)\<rparr>"

definition sceneIndex :: "SegmentFrustum \<Rightarrow> vec3 DwgObject list" where
  "sceneIndex frustum = [sign, wall]"

definition objectsRule :: ObjectsVisibilityRule where
  "objectsRule =
     \<lparr>viewPointOffset = 0, viewPointElevation = 0, viewPointStep = 2, viewDistance = 300,
      side = BOTH\<rparr>"

definition alignmentRule :: AlignmentVisibilityRule where
  "alignmentRule =
     \<lparr>viewPointOffset = 0, viewPointElevation = 0, viewPointStep = 1, viewDistance = 300,
      objectOffset = 0, objectElevation = 0, objectStep = 1\<rparr>"

section \<open>Ordered search: proofs\<close>

lemma sar1_small: "0 \<le> d \<Longrightarrow> d < 2 ^ 31 \<Longrightarrow> sar1 d = d div 2"
  by (simp add: sar1_def toInt32_def)

lemma bitNot_small: "0 \<le> p \<Longrightarrow> p < 2 ^ 31 \<Longrightarrow> bitNot p = - p - 1"
  by (simp add: bitNot_def toInt32_def)

lemma bitNot_bitNot_small: "0 \<le> p \<Longrightarrow> p < 2 ^ 31 \<Longrightarrow> bitNot (bitNot p) = p"
proof -
  assume a: "0 \<le> p" "p < 2 ^ 31"
  have "(- p - 1 + 2 ^ 31) mod 2 ^ 32 = (- p - 1 + 2 ^ 31 :: int)"
    using a by (intro mod_pos_pos_trivial) auto
  then have "toInt32 (- p - 1) = - p - 1" by (simp add: toInt32_def)
  then show ?thesis using a by (simp add: bitNot_small) (simp add: bitNot_def)
qed

lemma cmp_below:
  assumes "comparator_ok c" "0 < c t y" "c x y \<le> 0"
  shows "0 < c t x"
proof (rule ccontr)
  assume "\<not> 0 < c t x"
  then have "c t x \<le> 0" by simp
  with assms(1,3) have "c t y \<le> 0" unfolding comparator_ok_def by blast
  with assms(2) show False by simp
qed

lemma cmp_above:
  assumes "comparator_ok c" "c t x < 0" "c x y \<le> 0"
  shows "c t y < 0"
proof (rule ccontr)
  assume "\<not> c t y < 0"
  then have "\<not> 0 < c y t" using assms(1) unfolding comparator_ok_def by blast
  then have "c y t \<le> 0" by simp
  with assms(1,3) have "c x t \<le> 0" unfolding comparator_ok_def by blast
  then have "\<not> 0 < c x t" by simp
  then have "\<not> c t x < 0" using assms(1) unfolding comparator_ok_def by blast
  with assms(2) show False by simp
qed

lemma loop_correct:
  assumes ok: "comparator_ok c" and srt: "sorted_by c xs" and len: "int (length xs) < 2 ^ 31"
  shows "0 \<le> s \<Longrightarrow> e < int (length xs) \<Longrightarrow> s \<le> e + 1 \<Longrightarrow>
         (\<forall>i. int i < s \<longrightarrow> 0 < c t (xs ! i)) \<Longrightarrow>
         (\<forall>i. e < int i \<longrightarrow> i < length xs \<longrightarrow> c t (xs ! i) < 0) \<Longrightarrow>
         \<exists>r. binarySearch_loop xs t c s e = Some (Index r) \<and>
           ((0 \<le> r \<and> r < int (length xs) \<and> c t (xs ! nat r) = 0) \<or>
            (\<exists>p. r = bitNot (int p) \<and> partitioned c xs t p))"
proof (induction "nat (e - s + 1)" arbitrary: s e rule: less_induct)
  case less
  show ?case
  proof (cases "s \<le> e")
    case False
    with less.prems have se: "s = e + 1" by simp
    have "partitioned c xs t (nat s)"
      unfolding partitioned_def using less.prems se by auto
    moreover have "binarySearch_loop xs t c s e = Some (Index (bitNot (int (nat s))))"
      using False less.prems by (subst binarySearch_loop.simps) simp
    ultimately show ?thesis by blast
  next
    case True
    define m where "m = s + (e - s) div 2"
    have d: "0 \<le> e - s" "e - s < 2 ^ 31" using True less.prems len by auto
    have sar: "sar1 (e - s) = (e - s) div 2" using d by (rule sar1_small)
    have mb: "s \<le> m" "m \<le> e" using True unfolding m_def by auto
    then have mr: "0 \<le> m" "m < int (length xs)" using less.prems by auto
    have unfold: "binarySearch_loop xs t c s e =
       (if c t (xs ! nat m) = 0 then Some (Index m)
        else if c t (xs ! nat m) > 0 then binarySearch_loop xs t c (m + 1) e
        else binarySearch_loop xs t c s (m - 1))"
      using True mr sar by (subst binarySearch_loop.simps) (simp add: m_def Let_def)
    consider (eq) "c t (xs ! nat m) = 0" | (gt) "0 < c t (xs ! nat m)" | (lt) "c t (xs ! nat m) < 0"
      by linarith
    then show ?thesis
    proof cases
      case eq
      then show ?thesis using unfold mr by auto
    next
      case gt
      have low: "\<forall>i. int i < m + 1 \<longrightarrow> 0 < c t (xs ! i)"
      proof (intro allI impI)
        fix i assume i: "int i < m + 1"
        show "0 < c t (xs ! i)"
        proof (cases "i = nat m")
          case True then show ?thesis using gt by simp
        next
          case False
          then have "i < nat m" using i mr by linarith
          moreover have "nat m < length xs" using mr by linarith
          ultimately have "c (xs ! i) (xs ! nat m) \<le> 0"
            using srt unfolding sorted_by_def by (simp add: sorted_wrt_iff_nth_less)
          then show ?thesis using cmp_below[OF ok gt] by blast
        qed
      qed
      have "\<exists>r. binarySearch_loop xs t c (m + 1) e = Some (Index r) \<and>
           ((0 \<le> r \<and> r < int (length xs) \<and> c t (xs ! nat r) = 0) \<or>
            (\<exists>p. r = bitNot (int p) \<and> partitioned c xs t p))"
        using mb mr less.prems low by (intro less.hyps) auto
      then show ?thesis using unfold gt by simp
    next
      case lt
      have up: "\<forall>i. m - 1 < int i \<longrightarrow> i < length xs \<longrightarrow> c t (xs ! i) < 0"
      proof (intro allI impI)
        fix i assume i: "m - 1 < int i" "i < length xs"
        show "c t (xs ! i) < 0"
        proof (cases "i = nat m")
          case True then show ?thesis using lt by simp
        next
          case False
          then have "nat m < i" using i mr by linarith
          then have "c (xs ! nat m) (xs ! i) \<le> 0"
            using srt i unfolding sorted_by_def by (simp add: sorted_wrt_iff_nth_less)
          then show ?thesis using cmp_above[OF ok lt] by blast
        qed
      qed
      have "\<exists>r. binarySearch_loop xs t c s (m - 1) = Some (Index r) \<and>
           ((0 \<le> r \<and> r < int (length xs) \<and> c t (xs ! nat r) = 0) \<or>
            (\<exists>p. r = bitNot (int p) \<and> partitioned c xs t p))"
        using mb mr less.prems up by (intro less.hyps) auto
      then show ?thesis using unfold lt by simp
    qed
  qed
qed

lemma partitioned_no_match:
  "partitioned c xs t p \<Longrightarrow> i < length xs \<Longrightarrow> c t (xs ! i) \<noteq> 0"
  unfolding partitioned_def by (metis less_irrefl not_le_imp_less)

lemma partitioned_insertionPoint:
  assumes "partitioned c xs t p"
  shows "insertionPoint c xs t = p"
proof -
  have a: "filter (\<lambda>x. 0 < c t x) (take p xs) = take p xs"
    using assms unfolding partitioned_def
    by (auto simp: filter_id_conv in_set_conv_nth)
  have b: "filter (\<lambda>x. 0 < c t x) (drop p xs) = []"
    using assms unfolding partitioned_def
    by (auto simp: filter_empty_conv in_set_conv_nth) (metis add.commute le_add2 less_diff_conv not_less_iff_gr_or_eq)
  have "filter (\<lambda>x. 0 < c t x) xs = filter (\<lambda>x. 0 < c t x) (take p xs @ drop p xs)" by simp
  also have "\<dots> = take p xs" unfolding filter_append a b by simp
  finally show ?thesis using assms unfolding insertionPoint_def partitioned_def by simp
qed

lemma partitioned_insert_sorted:
  assumes ok: "comparator_ok c" and srt: "sorted_by c xs" and p: "partitioned c xs t p"
  shows "sorted_by c (insertAt p t xs)"
proof -
  have s1: "sorted_wrt (\<lambda>a b. c a b \<le> 0) (take p xs)" "sorted_wrt (\<lambda>a b. c a b \<le> 0) (drop p xs)"
    using srt unfolding sorted_by_def by (simp_all add: sorted_wrt_take sorted_wrt_drop)
  have s2: "\<forall>x\<in>set (take p xs). \<forall>y\<in>set (drop p xs). c x y \<le> 0"
    using srt unfolding sorted_by_def
    by (metis append_take_drop_id sorted_wrt_append)
  have lo: "\<forall>x\<in>set (take p xs). c x t \<le> 0"
  proof
    fix x assume "x \<in> set (take p xs)"
    then obtain i where "i < p" "i < length xs" "x = xs ! i"
      by (auto simp: in_set_conv_nth)
    then have "0 < c t x" using p unfolding partitioned_def by simp
    then have "c x t < 0" using ok unfolding comparator_ok_def by blast
    then show "c x t \<le> 0" by simp
  qed
  have hi: "\<forall>y\<in>set (drop p xs). c t y \<le> 0"
  proof
    fix y assume "y \<in> set (drop p xs)"
    then obtain i where "i < length xs - p" "y = xs ! (p + i)"
      by (auto simp: in_set_conv_nth)
    then have "c t y < 0" using p unfolding partitioned_def by simp
    then show "c t y \<le> 0" by simp
  qed
  show ?thesis unfolding sorted_by_def insertAt_def
    using s1 s2 lo hi by (auto simp: sorted_wrt_append)
qed


text \<open>
  C9. For an array sorted ascending under the comparator (below \<open>2\<^sup>3\<^sup>1\<close> elements, so that
  the 32-bit shift and complement do not wrap) and any target, \<open>binarySearch\<close> returns: an
  index \<open>r\<close> with \<open>comparator target (sortedArray[r]) = 0\<close> when some element compares equal;
  otherwise the negative number \<open>~p\<close> for the insertion point \<open>p\<close>, where inserting the target
  at \<open>p\<close> keeps the array sorted and complementing the result gives \<open>p\<close> back.
\<close>

theorem binarySearch_contract:
  assumes "comparator_ok comparator" and "sorted_by comparator sortedArray"
    and "int (length sortedArray) < 2 ^ 31"
  shows "\<exists>r. binarySearch sortedArray target comparator = Some (Index r) \<and>
     (if \<exists>i<length sortedArray. comparator target (sortedArray ! i) = 0
      then 0 \<le> r \<and> r < int (length sortedArray) \<and> comparator target (sortedArray ! nat r) = 0
      else r < 0 \<and> r = bitNot (int (insertionPoint comparator sortedArray target)) \<and>
           bitNot r = int (insertionPoint comparator sortedArray target) \<and>
           insertionPoint comparator sortedArray target \<le> length sortedArray \<and>
           sorted_by comparator
             (insertAt (insertionPoint comparator sortedArray target) target sortedArray))"
proof -
  let ?n = "length sortedArray"
  have "\<exists>r. binarySearch_loop sortedArray target comparator 0 (int ?n - 1) = Some (Index r) \<and>
           ((0 \<le> r \<and> r < int ?n \<and> comparator target (sortedArray ! nat r) = 0) \<or>
            (\<exists>p. r = bitNot (int p) \<and> partitioned comparator sortedArray target p))"
    using assms by (intro loop_correct) auto
  then obtain r where r: "binarySearch sortedArray target comparator = Some (Index r)"
    and cs: "(0 \<le> r \<and> r < int ?n \<and> comparator target (sortedArray ! nat r) = 0) \<or>
            (\<exists>p. r = bitNot (int p) \<and> partitioned comparator sortedArray target p)"
    unfolding binarySearch_def by blast
  from cs show ?thesis
  proof
    assume found: "0 \<le> r \<and> r < int ?n \<and> comparator target (sortedArray ! nat r) = 0"
    then have "nat r < ?n" by linarith
    with found have "\<exists>i<?n. comparator target (sortedArray ! i) = 0" by blast
    with r found show ?thesis by simp
  next
    assume "\<exists>p. r = bitNot (int p) \<and> partitioned comparator sortedArray target p"
    then obtain p where p: "r = bitNot (int p)" "partitioned comparator sortedArray target p"
      by blast
    have ip: "insertionPoint comparator sortedArray target = p"
      using p(2) by (rule partitioned_insertionPoint)
    have pn: "p \<le> ?n" using p(2) unfolding partitioned_def by simp
    then have small: "0 \<le> int p" "int p < 2 ^ 31" using assms(3) by auto
    have neg: "r < 0" using p(1) bitNot_small[OF small] by simp
    have rt: "bitNot r = int p" using p(1) bitNot_bitNot_small[OF small] by simp
    have nomatch: "\<not> (\<exists>i<?n. comparator target (sortedArray ! i) = 0)"
      using partitioned_no_match[OF p(2)] by blast
    have "sorted_by comparator (insertAt p target sortedArray)"
      using assms(1,2) p(2) by (rule partitioned_insert_sorted)
    with r neg rt p(1) pn ip nomatch show ?thesis by simp
  qed
qed

theorem binarySearch_contract_witness:
  "comparator_ok (\<lambda>a b :: real. a - b) \<and> sorted_by (\<lambda>a b. a - b) [1, 3, 5 :: real] \<and>
   int (length [1, 3, 5 :: real]) < 2 ^ 31 \<and>
   binarySearch [1, 3, 5 :: real] 4 (\<lambda>a b. a - b) = Some (Index (- 3)) \<and>
   bitNot (- 3) = 2 \<and>
   sorted_by (\<lambda>a b. a - b) (insertAt 2 4 [1, 3, 5 :: real])"
proof -
  have h1: "comparator_ok (\<lambda>a b :: real. a - b)" by (simp add: comparator_ok_def)
  have h2: "sorted_by (\<lambda>a b. a - b) [1, 3, 5 :: real]" by (simp add: sorted_by_def)
  have h3: "int (length [1, 3, 5 :: real]) < 2 ^ 31" by simp
  have nm: "\<not> (\<exists>i<length [1, 3, 5 :: real]. 4 - [1, 3, 5 :: real] ! i = 0)"
  proof -
    have "4 - [1, 3, 5 :: real] ! i \<noteq> 0" if "i < length [1, 3, 5 :: real]" for i
    proof -
      from that have "i = 0 \<or> i = 1 \<or> i = 2" by auto
      then show ?thesis by auto
    qed
    then show ?thesis by blast
  qed
  have ip: "insertionPoint (\<lambda>a b. a - b) [1, 3, 5 :: real] 4 = 2"
    by (simp add: insertionPoint_def)
  from binarySearch_contract [OF h1 h2 h3, of 4] obtain r where
    r: "binarySearch [1, 3, 5 :: real] 4 (\<lambda>a b. a - b) = Some (Index r)" and
    c: "if \<exists>i<length [1, 3, 5 :: real]. 4 - [1, 3, 5 :: real] ! i = 0
      then 0 \<le> r \<and> r < int (length [1, 3, 5 :: real]) \<and> 4 - [1, 3, 5 :: real] ! nat r = 0
      else r < 0 \<and> r = bitNot (int (insertionPoint (\<lambda>a b. a - b) [1, 3, 5 :: real] 4)) \<and>
           bitNot r = int (insertionPoint (\<lambda>a b. a - b) [1, 3, 5 :: real] 4) \<and>
           insertionPoint (\<lambda>a b. a - b) [1, 3, 5 :: real] 4 \<le> length [1, 3, 5 :: real] \<and>
           sorted_by (\<lambda>a b. a - b)
             (insertAt (insertionPoint (\<lambda>a b. a - b) [1, 3, 5 :: real] 4) 4 [1, 3, 5 :: real])"
    by blast
  from c nm have d: "r = bitNot (int (insertionPoint (\<lambda>a b. a - b) [1, 3, 5 :: real] 4)) \<and>
           bitNot r = int (insertionPoint (\<lambda>a b. a - b) [1, 3, 5 :: real] 4) \<and>
           sorted_by (\<lambda>a b. a - b)
             (insertAt (insertionPoint (\<lambda>a b. a - b) [1, 3, 5 :: real] 4) 4 [1, 3, 5 :: real])"
    by (simp only: if_False) blast
  have v: "bitNot 2 = - 3" by (simp add: bitNot_def toInt32_def)
  from d have "r = - 3" "bitNot r = 2"
    "sorted_by (\<lambda>a b. a - b) (insertAt 2 4 [1, 3, 5 :: real])"
    unfolding ip by (simp_all add: bitNot_def toInt32_def)
  with r h1 h2 h3 show ?thesis by (simp add: bitNot_def toInt32_def)
qed

section \<open>Direction-aware path adapter: proofs\<close>

text \<open>
  C7 as stated fails: with the alignment reclaimed, \<open>tangentAt\<close> hands back the caller's
  buffer as it is, which need not be the zero vector.
\<close>

theorem tangentAt_destroyed_counterexample:
  "tangentAt \<lparr>alignment = None, length_w = 10, modelName = [], direction = FORWARD\<rparr>
     (1, 2, 3) 5 \<noteq> (0, 0, 0)"
  by (simp add: tangentAt_def)

text \<open>
  C7, amended. After the wrapped alignment has been reclaimed, no query raises: the tangent
  and both coordinate conversions return the caller-supplied target unchanged, the
  elevation is 0 and the chainage label is the empty string.
\<close>

theorem destroyed_defaults:
  assumes "alignment w = None"
  shows "tangentAt w target station = target \<and> toWCS w target2 stationOffset = target2 \<and>
         fromWCS w target2 point = target2 \<and> elevationAt w station = 0 \<and> toPK w station = []"
  using assms by (simp add: tangentAt_def toWCS_def fromWCS_def elevationAt_def toPK_def)

theorem destroyed_defaults_witness:
  "alignment ((AlignmentWrapper_new (straight 10) BACKWARD)\<lparr>alignment := None\<rparr>) = None \<and>
   tangentAt ((AlignmentWrapper_new (straight 10) BACKWARD)\<lparr>alignment := None\<rparr>) (1, 2, 3) 4
     = (1, 2, 3) \<and>
   toWCS ((AlignmentWrapper_new (straight 10) BACKWARD)\<lparr>alignment := None\<rparr>) (7, 8) (4, 1)
     = (7, 8) \<and>
   elevationAt ((AlignmentWrapper_new (straight 10) BACKWARD)\<lparr>alignment := None\<rparr>) 4 = 0 \<and>
   toPK ((AlignmentWrapper_new (straight 10) BACKWARD)\<lparr>alignment := None\<rparr>) 4 = []"
  using destroyed_defaults
    [of "(AlignmentWrapper_new (straight 10) BACKWARD)\<lparr>alignment := None\<rparr>"
        "(1, 2, 3)" 4 "(7, 8)" "(4, 1)" "(0, 0)"]
  by simp

text \<open>
  C8. For two wrappers of the same live alignment with the same cached length, one
  \<open>BACKWARD\<close> and one \<open>FORWARD\<close>: the backward world query at \<open>(s, o)\<close> is the forward one
  at \<open>(length - s, - o)\<close>, and the backward tangent at \<open>s\<close> is the negated forward tangent
  at \<open>length - s\<close>.
\<close>

theorem backward_mirrors_forward:
  assumes "alignment bw = Some al" and "alignment fw = Some al"
    and "direction bw = BACKWARD" and "direction fw = FORWARD"
    and "length_w bw = length_w fw"
  shows "toWCS bw target2 (s, off) = toWCS fw target2 (length_w fw - s, - off) \<and>
         tangentAt bw target s = vec3_neg (tangentAt fw target (length_w fw - s))"
  using assms by (simp add: toWCS_def tangentAt_def)

theorem backward_mirrors_forward_witness:
  "toWCS (AlignmentWrapper_new (straight 10) BACKWARD) (0, 0) (3, 1) = (7, - 1) \<and>
   toWCS (AlignmentWrapper_new (straight 10) FORWARD) (0, 0) (10 - 3, - 1) = (7, - 1) \<and>
   tangentAt (AlignmentWrapper_new (straight 10) BACKWARD) (0, 0, 0) 3 = (- 1, 0, 0)"
  using backward_mirrors_forward
    [of "AlignmentWrapper_new (straight 10) BACKWARD" "straight 10"
        "AlignmentWrapper_new (straight 10) FORWARD" "(0, 0)" 3 1 "(0, 0, 0)"]
  by (simp add: AlignmentWrapper_new_def straight_def toWCS_def tangentAt_def vec3_neg_def)

section \<open>Segment bounding volume and intersector: proofs\<close>

text \<open>
  Whatever the library computes, a closest-approach parameter above zero makes
  \<open>intersectSegment\<close> answer false for a segment that is not degenerate.
\<close>

lemma intersectSegment_positive_parameter:
  assumes "\<not> vec3_distance a b < EPS"
    and "0 < ray3_closestPointToRay M
               (ray3_make a (vec3_mul (vec3_sub b a) (1 / vec3_distance a b)))
               (frustum_ray f ((0, 0, 0), (0, 0, 0)))"
  shows "\<not> intersectSegment M f a b"
  using assms by (simp add: intersectSegment_def Let_def)

text \<open>
  C5. The closest-approach test the claim describes is not what the code computes. The
  volume runs from \<open>(0,0,0)\<close> to \<open>(2,0,0)\<close>; the segment from \<open>(1,-1,0)\<close> to \<open>(1,1,0)\<close>
  crosses its centerline at parameter \<open>t = 1\<close> of \<open>[0, 2]\<close>, so the closest-approach test
  holds, yet \<open>intersectSegment\<close> answers false: the range check is written
  \<^verbatim>\<open>0 < t || t > length\<close> and rejects every \<open>t > 0\<close>.
\<close>

theorem intersectSegment_rejects_crossing:
  "closestApproachTest Math3d_ref \<lparr>seg_a = (0, 0, 0), seg_b = (2, 0, 0)\<rparr> (1, - 1, 0) (1, 1, 0) \<and>
   \<not> intersectSegment Math3d_ref \<lparr>seg_a = (0, 0, 0), seg_b = (2, 0, 0)\<rparr> (1, - 1, 0) (1, 1, 0)"
  by (simp add: closestApproachTest_def intersectSegment_def containsPoint_def frustum_ray_def
      Math3d_ref_def closestPointToRay_ref_def distanceToPoint_ref_def vec3_distance_def
      vec3_len_def vec3_dot_def vec3_sub_def vec3_mul_def vec3_add_def ray3_make_def ray3_at_def
      EPS_def Let_def)

text \<open>
  What \<open>intersectSegment\<close> does compute, for any library: the point-containment test of
  \<open>a\<close> when the endpoints of the argument segment are closer than epsilon; otherwise true
  only if the closest-approach parameter does not exceed the segment's length and the
  closest-approach point passes the containment test.
\<close>

lemma intersectSegment_behaviour:
  "(vec3_distance a b < EPS \<longrightarrow> intersectSegment M f a b = containsPoint M f a) \<and>
   (\<not> vec3_distance a b < EPS \<longrightarrow> intersectSegment M f a b \<longrightarrow>
      (let segment = ray3_make a (vec3_mul (vec3_sub b a) (1 / vec3_distance a b));
           t = ray3_closestPointToRay M segment (frustum_ray f ((0, 0, 0), (0, 0, 0)))
       in t \<le> vec3_distance a b \<and> containsPoint M f (ray3_at segment t)))"
  by (auto simp: intersectSegment_def Let_def split: if_splits)

lemma intersectSegment_behaviour_instance:
  "vec3_distance (1, 0, 0) (1, 0, 0) < EPS \<and>
   intersectSegment Math3d_ref \<lparr>seg_a = (0, 0, 0), seg_b = (2, 0, 0)\<rparr> (1, 0, 0) (1, 0, 0) \<and>
   \<not> vec3_distance (1, 0, 0) (1, 2, 0) < EPS \<and>
   intersectSegment Math3d_ref \<lparr>seg_a = (0, 0, 0), seg_b = (2, 0, 0)\<rparr> (1, 0, 0) (1, 2, 0) \<and>
   containsPoint Math3d_ref \<lparr>seg_a = (0, 0, 0), seg_b = (2, 0, 0)\<rparr> (1, 0, 0)"
  using intersectSegment_behaviour
    [of "(1, 0, 0)" "(1, 0, 0)" Math3d_ref "\<lparr>seg_a = (0, 0, 0), seg_b = (2, 0, 0)\<rparr>"]
    intersectSegment_behaviour
    [of "(1, 0, 0)" "(1, 2, 0)" Math3d_ref "\<lparr>seg_a = (0, 0, 0), seg_b = (2, 0, 0)\<rparr>"]
  by (simp add: intersectSegment_def containsPoint_def frustum_ray_def
      Math3d_ref_def closestPointToRay_ref_def distanceToPoint_ref_def vec3_distance_def
      vec3_len_def vec3_dot_def vec3_sub_def vec3_mul_def vec3_add_def ray3_make_def ray3_at_def
      EPS_def Let_def)




section \<open>The centre of a model: proofs\<close>

lemma vec3_sum_Cons: "vec3_sum (p # ps) = vec3_add p (vec3_sum ps)"
  by (simp add: vec3_sum_def)

lemma vec3_sum_append: "vec3_sum (ps @ qs) = vec3_add (vec3_sum ps) (vec3_sum qs)"
  by (induction ps) (auto simp: vec3_sum_Cons vec3_sum_def vec3_add_def split: prod.splits)

lemma sumIndices_inrange:
  "list_all (\<lambda>i. i * 3 + 2 < length vs) is \<Longrightarrow>
   sumIndices vs is (Some x, Some y, Some z, n) =
     (case vec3_add (x, y, z) (vec3_sum (map (vertexAt vs) is)) of
        (sx, sy, sz) \<Rightarrow> (Some sx, Some sy, Some sz, n + length is))"
proof (induction "is" arbitrary: x y z n)
  case Nil
  then show ?case by (simp add: vec3_sum_def vec3_add_def)
next
  case (Cons i rest)
  then show ?case
    by (simp add: readNumber_def addNumber_def vec3_sum_Cons vertexAt_def vec3_add_def
        split: prod.splits)
qed

lemma sumMeshes_inrange:
  "list_all indicesInRange (geometries \<lparr>ident = i, dwgType = t, layer = l, meshes = ms, matrix = m\<rparr>) \<Longrightarrow>
   sumMeshes ms (s, Some x, Some y, Some z, n) =
     (case vec3_add (x, y, z)
             (vec3_sum (referencedVertices \<lparr>ident = i, dwgType = t, layer = l, meshes = ms, matrix = m\<rparr>)) of
        (sx, sy, sz) \<Rightarrow>
          (s \<or> geometries \<lparr>ident = i, dwgType = t, layer = l, meshes = ms, matrix = m\<rparr> \<noteq> [],
           Some sx, Some sy, Some sz,
           n + length (referencedVertices \<lparr>ident = i, dwgType = t, layer = l, meshes = ms, matrix = m\<rparr>)))"
proof (induction ms arbitrary: s x y z n)
  case Nil
  then show ?case by (simp add: geometries_def referencedVertices_def vec3_sum_def vec3_add_def)
next
  case (Cons mesh rest)
  show ?case
  proof (cases "geometry mesh")
    case None
    with Cons show ?thesis by (simp add: geometries_def referencedVertices_def)
  next
    case (Some g)
    with Cons.prems have g: "list_all (\<lambda>i. i * 3 + 2 < length (vertices g)) (indices g)"
      by (simp add: geometries_def indicesInRange_def)
    from Some Cons.prems
    have rest: "list_all indicesInRange (geometries \<lparr>ident = i, dwgType = t, layer = l, meshes = rest, matrix = m\<rparr>)"
      by (simp add: geometries_def)
    obtain sx sy sz where s1: "vec3_add (x, y, z) (vec3_sum (map (vertexAt (vertices g)) (indices g))) = (sx, sy, sz)"
      by (cases "vec3_add (x, y, z) (vec3_sum (map (vertexAt (vertices g)) (indices g)))") auto
    have "sumMeshes (mesh # rest) (s, Some x, Some y, Some z, n) =
          sumMeshes rest (True, Some sx, Some sy, Some sz, n + length (indices g))"
      using Some sumIndices_inrange[OF g, of x y z n] s1 by simp
    also note Cons.IH[OF rest, of True sx sy sz "n + length (indices g)"]
    finally show ?thesis
      using Some s1
      by (simp add: geometries_def referencedVertices_def vec3_sum_append)
         (auto simp: vec3_add_def split: prod.splits)
  qed
qed

lemma modelCenter_mean:
  assumes "list_all indicesInRange (geometries model)"
  shows "modelCenter M model =
     (if referencedVertices model = [] then NoCenter
      else Center (mat4_mulv3 M (matrix model) (vertexMean (referencedVertices model))))"
proof -
  obtain i t l ms m where model: "model = \<lparr>ident = i, dwgType = t, layer = l, meshes = ms, matrix = m\<rparr>"
    by (cases model) auto
  obtain sx sy sz where s: "vec3_sum (referencedVertices model) = (sx, sy, sz)"
    by (cases "vec3_sum (referencedVertices model)") auto
  have ne: "referencedVertices model \<noteq> [] \<Longrightarrow> geometries model \<noteq> []"
    by (auto simp: referencedVertices_def)
  show ?thesis
    using sumMeshes_inrange[of i t l ms m False 0 0 0 0] assms s ne
    unfolding model
    by (auto simp: modelCenter_def vec3_add_def vertexMean_def vec3_mul_def)
qed

lemma modelCenter_no_geometry:
  assumes "geometries model = []"
  shows "modelCenter M model = NoCenter"
  using modelCenter_mean[of model M] assms by (simp add: referencedVertices_def)

text \<open>
  C4 as stated fails. The model \<open>twoTriangles\<close> has one triangle of area 1 and one of area
  1/2; \<open>modelCenter\<close> gives the plain mean \<open>(2, 1/3, 0)\<close> of the six referenced vertices,
  while the area-weighted mean of the specification is \<open>(14/9, 1/3, 0)\<close>.
\<close>

theorem modelCenter_counterexample:
  "modelCenter Math3d_ref twoTriangles = Center (2, 1/3, 0) \<and>
   mat4_mulv3 Math3d_ref (matrix twoTriangles)
     (areaWeightedMean (trianglesOf (referencedVertices twoTriangles))) = (14/9, 1/3, 0)"
  by (simp add: modelCenter_def twoTriangles_def Math3d_ref_def readNumber_def addNumber_def
      areaWeightedMean_def referencedVertices_def geometries_def vertexAt_def triangleArea_def
      vec3_sum_def vec3_add_def vec3_mul_def vec3_sub_def vec3_cross_def vec3_len_def vec3_dot_def)

section \<open>The station loop and the runs of violations: proofs\<close>

lemma iterStations_None:
  "iterStations body step st k = None \<Longrightarrow> iterStations body step st (k + j) = None"
  by (induction j) simp_all

lemma stationCount_beyond:
  assumes "0 < step"
  shows "\<not> real (stationCount step len) * step \<le> len"
proof (cases "len < 0")
  case True
  then show ?thesis by (simp add: stationCount_def)
next
  case False
  then have nn: "0 \<le> len / step" using assms by simp
  have "len / step < real_of_int (\<lfloor>len / step\<rfloor> + 1)" by linarith
  also have "\<dots> = real (nat \<lfloor>len / step\<rfloor> + 1)" using nn by simp
  finally have "len < real (nat \<lfloor>len / step\<rfloor> + 1) * step"
    using assms by (simp add: pos_divide_less_eq)
  then show ?thesis using False by (simp add: stationCount_def)
qed

lemma stationCount_within:
  assumes "0 < step" and "k < stationCount step len"
  shows "real k * step \<le> len"
proof -
  from assms(2) have len: "\<not> len < 0" and k: "k \<le> nat \<lfloor>len / step\<rfloor>"
    by (auto simp: stationCount_def split: if_splits)
  then have nn: "0 \<le> len / step" using assms by simp
  from k nn have "real k \<le> real_of_int \<lfloor>len / step\<rfloor>"
    by (metis floor_mono floor_zero nat_le_iff of_int_of_nat_eq of_nat_le_iff zero_le_floor le_nat_floor of_nat_nat)
  also have "\<dots> \<le> len / step" by linarith
  finally show ?thesis using assms(1) by (simp add: pos_le_divide_eq)
qed

lemma stationLoop_from:
  assumes step: "0 < step"
  shows "k \<le> stationCount step len \<Longrightarrow> iterStations body step st0 k = Some st \<Longrightarrow>
         stationLoop step len body (real k * step) st = iterStations body step st0 (stationCount step len)"
proof (induction "stationCount step len - k" arbitrary: k st)
  case 0
  then have k: "k = stationCount step len" by simp
  have "\<not> real k * step \<le> len" unfolding k using step by (rule stationCount_beyond)
  then show ?case using 0 k by (subst stationLoop.simps) simp
next
  case (Suc n)
  then have lt: "k < stationCount step len" by simp
  have le: "real k * step \<le> len" using step lt by (rule stationCount_within)
  have next_station: "real k * step + step = real (Suc k) * step" by (simp add: algebra_simps)
  show ?case
  proof (cases "body (real k * step) st")
    case None
    then have "iterStations body step st0 (Suc k) = None" using Suc.prems by simp
    then have "iterStations body step st0 (Suc k + (stationCount step len - Suc k)) = None"
      by (rule iterStations_None)
    then have "iterStations body step st0 (stationCount step len) = None" using lt by simp
    moreover have "stationLoop step len body (real k * step) st = None"
      using None le by (subst stationLoop.simps) simp
    ultimately show ?thesis by simp
  next
    case (Some st')
    then have it: "iterStations body step st0 (Suc k) = Some st'" using Suc.prems by simp
    have "stationLoop step len body (real (Suc k) * step) st' =
          iterStations body step st0 (stationCount step len)"
      using Suc.hyps(2) lt it by (intro Suc.hyps(1)) auto
    moreover have "stationLoop step len body (real k * step) st =
          stationLoop step len body (real k * step + step) st'"
      using Some le by (subst stationLoop.simps) simp
    ultimately show ?thesis unfolding next_station by simp
  qed
qed

lemma stationLoop_iterStations:
  assumes "0 < step"
  shows "stationLoop step len body 0 st = iterStations body step st (stationCount step len)"
  using stationLoop_from[OF assms, of 0 len body st st] by simp

lemma runs_inv:
  "runs V k = (cur, fin) \<Longrightarrow>
     (\<forall>i. cur = Some i \<longrightarrow> i < k \<and> (\<forall>j. i \<le> j \<and> j < k \<longrightarrow> V j) \<and> (\<forall>p\<in>set fin. snd p < i)) \<and>
     (cur = None \<longrightarrow> (\<forall>p\<in>set fin. snd p < k) \<and> (0 < k \<longrightarrow> \<not> V (k - 1))) \<and>
     (\<forall>p\<in>set fin. fst p \<le> snd p \<and> snd p < k \<and> (\<forall>j. fst p \<le> j \<and> j \<le> snd p \<longrightarrow> V j)) \<and>
     sorted_wrt (\<lambda>p q. snd p < fst q) fin \<and>
     (\<forall>j<k. V j \<longrightarrow> (\<exists>p\<in>set fin. fst p \<le> j \<and> j \<le> snd p) \<or> (\<exists>i. cur = Some i \<and> i \<le> j))"
proof (induction k arbitrary: cur fin)
  case 0
  then show ?case by simp
next
  case (Suc k)
  obtain c f where cf: "runs V k = (c, f)" by (cases "runs V k") auto
  note IH = Suc.IH[OF cf]
  show ?case
  proof (cases "V k")
    case True
    show ?thesis
    proof (cases c)
      case None
      with True cf Suc.prems have e: "cur = Some k" "fin = f" by auto
      show ?thesis unfolding e using IH None True
        by (auto simp: less_Suc_eq)
    next
      case (Some i)
      with True cf Suc.prems have e: "cur = Some i" "fin = f" by auto
      show ?thesis unfolding e using IH Some True
        by (auto simp: less_Suc_eq)
    qed
  next
    case False
    show ?thesis
    proof (cases c)
      case None
      with False cf Suc.prems have e: "cur = None" "fin = f" by auto
      show ?thesis unfolding e using IH None False
        by (auto simp: less_Suc_eq)
    next
      case (Some i)
      with False cf Suc.prems have e: "cur = None" "fin = f @ [(i, k - 1)]" by auto
      from IH Some have ik: "i < k" by simp
      show ?thesis unfolding e using IH Some False ik
        by (auto simp: less_Suc_eq sorted_wrt_append) (fastforce+)?
    qed
  qed
qed

section \<open>The sweeps, station by station: proofs\<close>

lemma UN_extend: "i \<le> k \<Longrightarrow> (\<Union>j\<in>{i..<Suc k}. G j) = (\<Union>j\<in>{i..<k}. G j) \<union> G k"
  by (auto simp: less_Suc_eq)

lemma UN_closed: "i < k \<Longrightarrow> (\<Union>j\<in>{i..k - Suc 0}. G j) = (\<Union>j\<in>{i..<k}. G j)"
proof -
  assume "i < k"
  then have "k \<noteq> 0" by simp
  then obtain k' where "k = Suc k'" using not0_implies_Suc by blast
  then have "{i..k - Suc 0} = {i..<k}" by auto
  then show ?thesis by simp
qed

lemma objects_iter:
  assumes step: "0 \<le> viewPointStep rule"
  shows "iterStations (objectsStation M index w rule object c os) (viewPointStep rule)
           \<lparr>o_tg = fst bufs0, o_viewPoint = snd bufs0, o_rangeStart = - 1, o_rangeEnd = - 1,
            o_obstaclesAtRange = {}, o_collection = []\<rparr> k =
         Some (objectsStateAt M index w rule object c os bufs0 k)"
proof (induction k)
  case 0
  show ?case by (simp add: objectsStateAt_def)
next
  case (Suc k)
  let ?V = "objectsViolation M index w rule object c os bufs0"
  let ?obs = "objectsObserve M index w rule object c os"
  let ?b = "traceBufs ?obs (viewPointStep rule) bufs0 k"
  obtain cur fin where r: "runs ?V k = (cur, fin)" by (cases "runs ?V k") auto
  note inv = runs_inv[OF r]
  obtain tg vp oov found where o: "?obs ?b (real k * viewPointStep rule) = ((tg, vp), oov, found)"
    by (cases "?obs ?b (real k * viewPointStep rule)") auto
  have v: "?V k = (\<not> (oov \<or> found = []))"
    and f: "objectsFound M index w rule object c os bufs0 k = found"
    using o by (simp_all add: objectsViolation_def objectsOutOfView_def objectsFound_def traceOutcome_def)
  have nn: "0 \<le> real i * viewPointStep rule" for i using step by simp
  show ?case
  proof (cases cur)
    case None
    show ?thesis
      using Suc r None o v f
      by (auto simp: objectsStateAt_def objectsStation_def Let_def)
  next
    case (Some i)
    with inv have ik: "i < k" by simp
    then have ile: "i \<le> k" by simp
    have neg: "\<not> real i * viewPointStep rule < 0" using nn[of i] by simp
    have km: "1 + real (k - Suc 0) = real k" using ik by simp
    show ?thesis
      using Suc r Some o v f nn[of i] neg
      by (auto simp: objectsStateAt_def objectsStation_def Let_def objectsDiagnostic_def
          objectsRecord_def UN_extend[OF ile] UN_closed[OF ik] km)
  qed
qed

lemma stationCount_decreases:
  assumes "0 < step" and "0 \<le> len"
  shows "stationCount step (len - step) < stationCount step len"
proof (cases "len - step < 0")
  case True
  then show ?thesis using assms by (simp add: stationCount_def)
next
  case False
  have "(len - step) / step = len / step - 1" using assms(1) by (simp add: diff_divide_distrib)
  then have "\<lfloor>(len - step) / step\<rfloor> = \<lfloor>len / step\<rfloor> - 1" by simp
  moreover have "1 \<le> \<lfloor>len / step\<rfloor>" using False assms(1) by (simp add: pos_le_divide_eq)
  ultimately show ?thesis using False assms by (simp add: stationCount_def)
qed

lemma targetLoop_returns:
  assumes "0 < objectStep rule"
  shows "\<exists>has os' op' found.
           targetLoop M index L w rule vp os op = Some (has, os', op', found) \<and>
           (has = (found \<noteq> []))"
proof (induction "stationCount (objectStep rule) (length_w w - os)" arbitrary: os op rule: less_induct)
  case less
  show ?case
  proof (cases "os \<le> length_w w")
    case False
    then show ?thesis by (subst targetLoop.simps) (cases op, auto)
  next
    case True
    have dec: "stationCount (objectStep rule) (length_w w - (os + objectStep rule))
                 < stationCount (objectStep rule) (length_w w - os)"
      using stationCount_decreases[OF assms, of "length_w w - os"] True
      by (simp add: algebra_simps)
    note IH = less.hyps[OF dec]
    show ?thesis
      using True IH
      by (subst targetLoop.simps) (auto simp: Let_def split: prod.splits)
  qed
qed

lemma alignmentObserve_unfold:
  "alignmentObserve M index L w rule (vp0, op0) station =
     map_option
        (\<lambda>(hasObstacles, objectStation, objectPoint, found).
           ((observerPoint w rule vp0 station, objectPoint), hasObstacles, objectStation, found))
        (targetLoop M index L w rule (observerPoint w rule vp0 station)
           (station + objectStep rule) op0)"
  by (simp add: alignmentObserve_def Let_def)

lemma alignmentObserve_total:
  assumes "0 < objectStep rule"
  shows "alignmentObserve M index L w rule bufs station =
           Some (alignmentObserved M index L w rule bufs station)"
proof -
  obtain vp0 op0 where b: "bufs = (vp0, op0)" by (cases bufs) auto
  obtain r where "targetLoop M index L w rule (observerPoint w rule vp0 station)
           (station + objectStep rule) op0 = Some r"
    using targetLoop_returns[OF assms] by blast
  then show ?thesis
    unfolding alignmentObserved_def b alignmentObserve_unfold by simp
qed

lemma alignmentObserved_found:
  assumes "0 < objectStep rule"
    and "alignmentObserved M index L w rule bufs station = (b, has, os, found)"
  shows "has = (found \<noteq> [])"
proof -
  obtain vp0 op0 where b: "bufs = (vp0, op0)" by (cases bufs) auto
  obtain h os' op' f where r: "targetLoop M index L w rule (observerPoint w rule vp0 station)
           (station + objectStep rule) op0 = Some (h, os', op', f)" and hf: "h = (f \<noteq> [])"
    using targetLoop_returns[OF assms(1)] by blast
  from assms(2) r have "has = h" "found = f"
    unfolding alignmentObserved_def b alignmentObserve_unfold by simp_all
  with hf show ?thesis by simp
qed

lemma rangeFrames_extend:
  "i \<le> k \<Longrightarrow> rangeFrames step T i (Suc k) = pushKeyFrame (rangeFrames step T i k) (real k * step) (T k)"
  by (simp add: rangeFrames_def)

lemma rangeFrames_empty: "rangeFrames step T k k = []"
  by (simp add: rangeFrames_def)

lemma alignment_iter:
  assumes step: "0 \<le> viewPointStep rule" and ostep: "0 < objectStep rule"
  shows "iterStations (alignmentStation M index L w rule) (viewPointStep rule)
           \<lparr>a_viewPoint = fst bufs0, a_objectPoint = snd bufs0, a_rangeStart = - 1,
            a_rangeKeyFrames = [], a_obstaclesAtStation = {}, a_collection = []\<rparr> k =
         Some (alignmentStateAt M index L w rule bufs0 k)"
proof (induction k)
  case 0
  show ?case by (simp add: alignmentStateAt_def)
next
  case (Suc k)
  let ?V = "alignmentHasObstacles M index L w rule bufs0"
  let ?obs = "alignmentObserved M index L w rule"
  let ?b = "traceBufs ?obs (viewPointStep rule) bufs0 k"
  obtain cur fin where r: "runs ?V k = (cur, fin)" by (cases "runs ?V k") auto
  note inv = runs_inv[OF r]
  obtain vp op has os found where o: "?obs ?b (real k * viewPointStep rule) = ((vp, op), has, os, found)"
    by (cases "?obs ?b (real k * viewPointStep rule)") auto
  have hf: "has = (found \<noteq> [])" using alignmentObserved_found[OF ostep o] .
  have v: "?V k = has"
    and f: "alignmentFound M index L w rule bufs0 k = found"
    and t: "alignmentTarget M index L w rule bufs0 k = os"
    using o by (simp_all add: alignmentHasObstacles_def alignmentFound_def alignmentTarget_def traceOutcome_def)
  have total: "alignmentObserve M index L w rule ?b (real k * viewPointStep rule)
                 = Some ((vp, op), has, os, found)"
    using alignmentObserve_total[OF ostep, of M index L w ?b] o by simp
  have nn: "0 \<le> real i * viewPointStep rule" for i using step by simp
  show ?case
  proof (cases cur)
    case None
    show ?thesis
      using Suc r None o v f t hf total
      by (auto simp: alignmentStateAt_def alignmentStation_def Let_def rangeFrames_extend
          rangeFrames_empty)
  next
    case (Some i)
    with inv have ik: "i < k" by simp
    then have ile: "i \<le> k" by simp
    have neg: "\<not> real i * viewPointStep rule < 0" using nn[of i] by simp
    have km: "1 + real (k - Suc 0) = real k" using ik by simp
    have kk: "Suc (k - Suc 0) = k" using ik by simp
    show ?thesis
      using Suc r Some o v f t hf total nn[of i] neg
      by (auto simp: alignmentStateAt_def alignmentStation_def Let_def alignmentDiagnostic_def
          alignmentRecord_def UN_extend[OF ile] UN_closed[OF ik] km kk rangeFrames_extend[OF ile])
  qed
qed

section \<open>What the sweeps emit: proofs\<close>

lemma allRuns_props:
  "sorted_wrt (\<lambda>p q. snd p < fst q) (allRuns V n) \<and>
   (\<forall>p\<in>set (allRuns V n). fst p \<le> snd p \<and> snd p < n \<and> (\<forall>j. fst p \<le> j \<and> j \<le> snd p \<longrightarrow> V j)) \<and>
   (\<forall>j<n. V j \<longrightarrow> (\<exists>p\<in>set (allRuns V n). fst p \<le> j \<and> j \<le> snd p))"
proof -
  obtain cur fin where r: "runs V n = (cur, fin)" by (cases "runs V n") auto
  note inv = runs_inv[OF r]
  show ?thesis
  proof (cases cur)
    case None
    then have a: "allRuns V n = fin" using r by (simp add: allRuns_def)
    show ?thesis unfolding a using inv None by auto
  next
    case (Some i)
    then have a: "allRuns V n = fin @ [(i, n - 1)]" using r by (simp add: allRuns_def)
    from inv Some have "i < n" by simp
    then show ?thesis unfolding a using inv Some
      by (auto simp: sorted_wrt_append) (fastforce+)?
  qed
qed

lemma objectsSweep_result:
  assumes step: "0 < viewPointStep rule"
    and side: "\<not> sideExcluded rule (snd (fromWCS w so0 (fst c, fst (snd c))))"
  shows "\<exists>r. objectsSweep M index rule object c w (so0, tg0, vp0) = Some r \<and>
     map (\<lambda>d. (rangeStart d, rangeEnd d, obstacles d)) (snd r) =
     map (\<lambda>p. (real (fst p) * viewPointStep rule, real (snd p) * viewPointStep rule,
               (\<Union>j\<in>{fst p..snd p}. ident ` set
                  (objectsFound M index w rule object c (fst (fromWCS w so0 (fst c, fst (snd c)))) (tg0, vp0) j))))
       (allRuns (objectsViolation M index w rule object c (fst (fromWCS w so0 (fst c, fst (snd c)))) (tg0, vp0))
          (stationCount (viewPointStep rule) (length_w w)))"
proof -
  let ?os = "fst (fromWCS w so0 (fst c, fst (snd c)))"
  let ?N = "stationCount (viewPointStep rule) (length_w w)"
  let ?V = "objectsViolation M index w rule object c ?os (tg0, vp0)"
  have loop: "stationLoop (viewPointStep rule) (length_w w)
                 (objectsStation M index w rule object c ?os) 0
                 \<lparr>o_tg = tg0, o_viewPoint = vp0, o_rangeStart = - 1, o_rangeEnd = - 1,
                  o_obstaclesAtRange = {}, o_collection = []\<rparr>
              = Some (objectsStateAt M index w rule object c ?os (tg0, vp0) ?N)"
    unfolding stationLoop_iterStations[OF step]
    using objects_iter[of rule M index w object c ?os "(tg0, vp0)" ?N] step by simp
  obtain cur fin where r: "runs ?V ?N = (cur, fin)" by (cases "runs ?V ?N") auto
  note inv = runs_inv[OF r]
  have nn: "0 \<le> real i * viewPointStep rule" for i using step by simp
  show ?thesis
  proof (cases cur)
    case None
    then show ?thesis
      using loop side r
      by (simp add: objectsSweep_def Let_def objectsStateAt_def allRuns_def objectsRecord_def comp_def)
  next
    case (Some i)
    with inv have iN: "i < ?N" by simp
    show ?thesis
      using loop side r Some nn[of i]
      by (simp add: objectsSweep_def Let_def objectsStateAt_def allRuns_def objectsRecord_def comp_def
          objectsDiagnostic_def UN_closed[OF iN])
  qed
qed

lemma alignmentSweep_result:
  assumes step: "0 < viewPointStep rule" and ostep: "0 < objectStep rule"
  shows "\<exists>r. alignmentSweep M index L rule w bufs0 = Some r \<and>
     map (\<lambda>d. (keyFrames d, obstacles d)) (snd r) =
     map (\<lambda>p. (rangeFrames (viewPointStep rule) (alignmentTarget M index L w rule bufs0)
                  (fst p) (snd p + 1),
               (\<Union>j\<in>{fst p..snd p}. ident ` set (alignmentFound M index L w rule bufs0 j))))
       (allRuns (alignmentHasObstacles M index L w rule bufs0)
          (stationCount (viewPointStep rule) (length_w w)))"
proof -
  let ?N = "stationCount (viewPointStep rule) (length_w w)"
  let ?V = "alignmentHasObstacles M index L w rule bufs0"
  have loop: "stationLoop (viewPointStep rule) (length_w w)
                 (alignmentStation M index L w rule) 0
                 \<lparr>a_viewPoint = fst bufs0, a_objectPoint = snd bufs0, a_rangeStart = - 1,
                  a_rangeKeyFrames = [], a_obstaclesAtStation = {}, a_collection = []\<rparr>
              = Some (alignmentStateAt M index L w rule bufs0 ?N)"
    unfolding stationLoop_iterStations[OF step]
    using alignment_iter[of rule M index L w bufs0 ?N] step ostep by simp
  obtain cur fin where r: "runs ?V ?N = (cur, fin)" by (cases "runs ?V ?N") auto
  note inv = runs_inv[OF r]
  have nn: "0 \<le> real i * viewPointStep rule" for i using step by simp
  show ?thesis
  proof (cases cur)
    case None
    then show ?thesis
      using loop r
      by (simp add: alignmentSweep_def Let_def alignmentStateAt_def allRuns_def alignmentRecord_def comp_def)
  next
    case (Some i)
    with inv have iN: "i < ?N" by simp
    then have sn: "Suc (?N - Suc 0) = ?N" by simp
    show ?thesis
      using loop r Some nn[of i]
      by (simp add: alignmentSweep_def Let_def alignmentStateAt_def allRuns_def alignmentRecord_def comp_def
          alignmentDiagnostic_def UN_closed[OF iN] sn)
  qed
qed

lemma pushKeyFrame_nonempty: "pushKeyFrame kfs s t \<noteq> []"
  by (auto simp: pushKeyFrame_def Let_def)

lemma pushKeyFrame_hd: "kfs \<noteq> [] \<Longrightarrow> hd (pushKeyFrame kfs s t) = hd kfs"
proof -
  assume ne: "kfs \<noteq> []"
  have "hd (kfs[length kfs - 1 := (s, t)]) = hd kfs" if "1 < length kfs"
    using that by (cases kfs) (auto simp: nth_list_update split: nat.splits)
  then show ?thesis using ne by (auto simp: pushKeyFrame_def Let_def)
qed

lemma pushKeyFrame_last: "last (pushKeyFrame kfs s t) = (s, t)"
proof -
  have "last (kfs[length kfs - 1 := (s, t)]) = (s, t)" if "1 < length kfs"
  proof -
    from that have ne: "kfs \<noteq> []" by auto
    show ?thesis using last_list_update[OF ne, of "length kfs - 1" "(s, t)"] by simp
  qed
  then show ?thesis by (auto simp: pushKeyFrame_def Let_def)
qed

lemma rangeFrames_ends:
  "i < k \<Longrightarrow> rangeFrames step T i k \<noteq> [] \<and>
     hd (rangeFrames step T i k) = (real i * step, T i) \<and>
     last (rangeFrames step T i k) = (real (k - 1) * step, T (k - 1))"
proof (induction k)
  case 0
  then show ?case by simp
next
  case (Suc k)
  show ?case
  proof (cases "i = k")
    case True
    then show ?thesis
      by (simp add: rangeFrames_extend rangeFrames_empty pushKeyFrame_def)
  next
    case False
    with Suc.prems have ik: "i < k" by simp
    then have ile: "i \<le> k" by simp
    from Suc.IH[OF ik] show ?thesis
      by (simp add: rangeFrames_extend[OF ile] pushKeyFrame_nonempty pushKeyFrame_hd pushKeyFrame_last)
  qed
qed


lemma map_eq_ball:
  assumes "map f xs = map g ys"
  shows "(\<forall>x\<in>set xs. R (f x)) = (\<forall>y\<in>set ys. R (g y))"
proof -
  have "f ` set xs = g ` set ys" using arg_cong[OF assms, of set] by simp
  then have "(\<forall>z\<in>f ` set xs. R z) = (\<forall>z\<in>g ` set ys. R z)" by simp
  then show ?thesis by simp
qed

lemma map_eq_bex:
  assumes "map f xs = map g ys"
  shows "(\<exists>x\<in>set xs. R (f x)) = (\<exists>y\<in>set ys. R (g y))"
proof -
  have "f ` set xs = g ` set ys" using arg_cong[OF assms, of set] by simp
  then have "(\<exists>z\<in>f ` set xs. R z) = (\<exists>z\<in>g ` set ys. R z)" by simp
  then show ?thesis by simp
qed

lemma map_eq_sorted:
  assumes "map f xs = map g ys"
  shows "sorted_wrt (\<lambda>a b. Q (f a) (f b)) xs = sorted_wrt (\<lambda>a b. Q (g a) (g b)) ys"
  using assms by (metis sorted_wrt_map)

lemma station_le: "0 < step \<Longrightarrow> (real a * step \<le> real b * step) = (a \<le> b)"
  by simp

lemma station_less: "0 < step \<Longrightarrow> (real a * step < real b * step) = (a < b)"
  by simp

text \<open>Properties of a list of records whose intervals are those of the runs.\<close>

lemma ranges_of_runs:
  assumes step: "0 < step"
    and m: "map (\<lambda>d. (lo d, hi d)) ds = map (\<lambda>p. (real (fst p) * step, real (snd p) * step)) (allRuns V n)"
  shows "sorted_wrt (\<lambda>d e. hi d < lo e) ds"
    and "\<forall>d\<in>set ds. lo d \<le> hi d"
    and "\<forall>k<n. V k = (\<exists>d\<in>set ds. lo d \<le> real k * step \<and> real k * step \<le> hi d)"
proof -
  note props = allRuns_props[of V n]
  have "sorted_wrt (\<lambda>p q. real (snd p) * step < real (fst q) * step) (allRuns V n)"
    using props step by (simp add: station_less)
  then show "sorted_wrt (\<lambda>d e. hi d < lo e) ds"
    using map_eq_sorted[OF m, of "\<lambda>x y. snd x < fst y"] by simp
  have "\<forall>p\<in>set (allRuns V n). real (fst p) * step \<le> real (snd p) * step"
    using props step by (simp add: station_le)
  then show "\<forall>d\<in>set ds. lo d \<le> hi d"
    using map_eq_ball[OF m, of "\<lambda>x. fst x \<le> snd x"] by simp
  show "\<forall>k<n. V k = (\<exists>d\<in>set ds. lo d \<le> real k * step \<and> real k * step \<le> hi d)"
  proof (intro allI impI)
    fix k assume k: "k < n"
    have "(\<exists>d\<in>set ds. lo d \<le> real k * step \<and> real k * step \<le> hi d) =
          (\<exists>p\<in>set (allRuns V n). real (fst p) * step \<le> real k * step \<and> real k * step \<le> real (snd p) * step)"
      using map_eq_bex[OF m, of "\<lambda>x. fst x \<le> real k * step \<and> real k * step \<le> snd x"] by simp
    also have "\<dots> = (\<exists>p\<in>set (allRuns V n). fst p \<le> k \<and> k \<le> snd p)"
      using step by (simp add: station_le)
    also have "\<dots> = V k" using props k by blast
    finally show "V k = (\<exists>d\<in>set ds. lo d \<le> real k * step \<and> real k * step \<le> hi d)" by simp
  qed
qed



section \<open>The concrete scene, evaluated\<close>



lemmas scene_defs = wall_def sign_def sceneIndex_def objectsRule_def alignmentRule_def
  AlignmentWrapper_new_def straight_def Math3d_ref_def normalize2_ref_def


lemmas wrapper_defs = tangentAt_def toWCS_def fromWCS_def elevationAt_def toPK_def observerPoint_def






section \<open>The claims about the sweeps\<close>

lemma objects_summary:
  assumes step: "0 < viewPointStep rule"
    and side: "\<not> sideExcluded rule (snd (fromWCS w so0 (fst c, fst (snd c))))"
  obtains r where "objectsSweep M index rule object c w (so0, tg0, vp0) = Some r"
    and "map (\<lambda>d. (rangeStart d, rangeEnd d)) (snd r) =
         map (\<lambda>p. (real (fst p) * viewPointStep rule, real (snd p) * viewPointStep rule))
           (allRuns (objectsViolation M index w rule object c (fst (fromWCS w so0 (fst c, fst (snd c)))) (tg0, vp0)) (stationCount (viewPointStep rule) (length_w w)))"
    and "map (\<lambda>d. (rangeStart d, rangeEnd d, obstacles d)) (snd r) =
         map (\<lambda>p. (real (fst p) * viewPointStep rule, real (snd p) * viewPointStep rule,
               (\<Union>j\<in>{fst p..snd p}. ident ` set (objectsFound M index w rule object c (fst (fromWCS w so0 (fst c, fst (snd c)))) (tg0, vp0) j))))
           (allRuns (objectsViolation M index w rule object c (fst (fromWCS w so0 (fst c, fst (snd c)))) (tg0, vp0)) (stationCount (viewPointStep rule) (length_w w)))"
proof -
  from objectsSweep_result[OF step side, of M index object tg0 vp0]
  obtain r where r: "objectsSweep M index rule object c w (so0, tg0, vp0) = Some r"
    and m: "map (\<lambda>d. (rangeStart d, rangeEnd d, obstacles d)) (snd r) =
         map (\<lambda>p. (real (fst p) * viewPointStep rule, real (snd p) * viewPointStep rule,
               (\<Union>j\<in>{fst p..snd p}. ident ` set (objectsFound M index w rule object c (fst (fromWCS w so0 (fst c, fst (snd c)))) (tg0, vp0) j))))
           (allRuns (objectsViolation M index w rule object c (fst (fromWCS w so0 (fst c, fst (snd c)))) (tg0, vp0)) (stationCount (viewPointStep rule) (length_w w)))"
    by blast
  have "map (\<lambda>x. (fst x, fst (snd x))) (map (\<lambda>d. (rangeStart d, rangeEnd d, obstacles d)) (snd r)) =
        map (\<lambda>x. (fst x, fst (snd x))) (map (\<lambda>p. (real (fst p) * viewPointStep rule, real (snd p) * viewPointStep rule,
               (\<Union>j\<in>{fst p..snd p}. ident ` set (objectsFound M index w rule object c (fst (fromWCS w so0 (fst c, fst (snd c)))) (tg0, vp0) j))))
           (allRuns (objectsViolation M index w rule object c (fst (fromWCS w so0 (fst c, fst (snd c)))) (tg0, vp0)) (stationCount (viewPointStep rule) (length_w w))))"
    using m by simp
  then have "map (\<lambda>d. (rangeStart d, rangeEnd d)) (snd r) =
         map (\<lambda>p. (real (fst p) * viewPointStep rule, real (snd p) * viewPointStep rule))
           (allRuns (objectsViolation M index w rule object c (fst (fromWCS w so0 (fst c, fst (snd c)))) (tg0, vp0)) (stationCount (viewPointStep rule) (length_w w)))"
    by (simp add: comp_def)
  with r m that show ?thesis by blast
qed





lemma alignment_summary:
  assumes step: "0 < viewPointStep arule" and ostep: "0 < objectStep arule"
  obtains r where "alignmentSweep M' index' L arule w' bufs0 = Some r"
    and "map keyFrames (snd r) =
         map (\<lambda>p. rangeFrames (viewPointStep arule) (alignmentTarget M' index' L w' arule bufs0) (fst p) (snd p + 1))
           (allRuns (alignmentHasObstacles M' index' L w' arule bufs0) (stationCount (viewPointStep arule) (length_w w')))"
    and "map (\<lambda>d. (firstStation d, lastStation d)) (snd r) =
         map (\<lambda>p. (real (fst p) * viewPointStep arule, real (snd p) * viewPointStep arule))
           (allRuns (alignmentHasObstacles M' index' L w' arule bufs0) (stationCount (viewPointStep arule) (length_w w')))"
    and "\<forall>d\<in>set (snd r). keyFrames d \<noteq> []"
proof -
  let ?V = "alignmentHasObstacles M' index' L w' arule bufs0"
  let ?T = "alignmentTarget M' index' L w' arule bufs0"
  let ?n = "stationCount (viewPointStep arule) (length_w w')"
  let ?step = "viewPointStep arule"
  from alignmentSweep_result[OF step ostep, of M' index' L w' bufs0]
  obtain r where r: "alignmentSweep M' index' L arule w' bufs0 = Some r"
    and m: "map (\<lambda>d. (keyFrames d, obstacles d)) (snd r) =
     map (\<lambda>p. (rangeFrames ?step ?T (fst p) (snd p + 1),
               (\<Union>j\<in>{fst p..snd p}. ident ` set (alignmentFound M' index' L w' arule bufs0 j))))
       (allRuns ?V ?n)"
    by blast
  have "map fst (map (\<lambda>d. (keyFrames d, obstacles d)) (snd r)) =
        map fst (map (\<lambda>p. (rangeFrames ?step ?T (fst p) (snd p + 1),
               (\<Union>j\<in>{fst p..snd p}. ident ` set (alignmentFound M' index' L w' arule bufs0 j))))
       (allRuns ?V ?n))"
    using m by simp
  then have kf: "map keyFrames (snd r) =
         map (\<lambda>p. rangeFrames ?step ?T (fst p) (snd p + 1)) (allRuns ?V ?n)"
    by (simp add: comp_def)
  have ends: "rangeFrames ?step ?T (fst p) (snd p + 1) \<noteq> [] \<and>
              fst (hd (rangeFrames ?step ?T (fst p) (snd p + 1))) = real (fst p) * ?step \<and>
              fst (last (rangeFrames ?step ?T (fst p) (snd p + 1))) = real (snd p) * ?step"
    if "p \<in> set (allRuns ?V ?n)" for p
  proof -
    from that allRuns_props[of ?V ?n] have "fst p < snd p + 1" by fastforce
    from rangeFrames_ends[OF this, of ?step ?T] show ?thesis by simp
  qed
  have "map (\<lambda>k. (fst (hd k), fst (last k))) (map keyFrames (snd r)) =
        map (\<lambda>k. (fst (hd k), fst (last k)))
          (map (\<lambda>p. rangeFrames ?step ?T (fst p) (snd p + 1)) (allRuns ?V ?n))"
    using kf by simp
  also have "\<dots> = map (\<lambda>p. (real (fst p) * ?step, real (snd p) * ?step)) (allRuns ?V ?n)"
    using ends by (simp add: comp_def)
  finally have fl: "map (\<lambda>d. (firstStation d, lastStation d)) (snd r) =
         map (\<lambda>p. (real (fst p) * ?step, real (snd p) * ?step)) (allRuns ?V ?n)"
    by (simp add: comp_def firstStation_def lastStation_def)
  have ne: "\<forall>d\<in>set (snd r). keyFrames d \<noteq> []"
    using map_eq_ball[OF kf, of "\<lambda>k. k \<noteq> []"] ends by simp
  from r kf fl ne that show ?thesis by blast
qed

text \<open>
  C2. For a path scanned by either sweep with positive steps, the emitted ranges are
  ordered by ascending start and do not overlap (each ends before the next starts), and
  the stations of the path inside the closed interval of some emitted range are exactly
  the stations at which the sweep detected a violation. The interval of a range is the one
  its record carries: \<open>rangeStart\<close> and \<open>rangeEnd\<close> in the path-to-object rule, the observer
  stations of the first and the last keyframe in the path-to-path rule.
\<close>

theorem sweep_range_invariants:
  assumes "0 < viewPointStep rule"
    and "\<not> sideExcluded rule (snd (fromWCS w so0 (fst c, fst (snd c))))"
    and "0 < viewPointStep arule" and "0 < objectStep arule"
  shows "(\<exists>r. objectsSweep M index rule object c w (so0, tg0, vp0) = Some r \<and>
            sorted_wrt (\<lambda>d e. rangeEnd d < rangeStart e) (snd r) \<and>
            (\<forall>d\<in>set (snd r). rangeStart d \<le> rangeEnd d) \<and>
            (\<forall>k<stationCount (viewPointStep rule) (length_w w).
               objectsViolation M index w rule object c (fst (fromWCS w so0 (fst c, fst (snd c)))) (tg0, vp0) k =
               (\<exists>d\<in>set (snd r). rangeStart d \<le> real k * viewPointStep rule \<and>
                                 real k * viewPointStep rule \<le> rangeEnd d))) \<and>
         (\<exists>r. alignmentSweep M' index' L arule w' bufs0 = Some r \<and>
            (\<forall>d\<in>set (snd r). keyFrames d \<noteq> []) \<and>
            sorted_wrt (\<lambda>d e. lastStation d < firstStation e) (snd r) \<and>
            (\<forall>d\<in>set (snd r). firstStation d \<le> lastStation d) \<and>
            (\<forall>k<stationCount (viewPointStep arule) (length_w w').
               alignmentHasObstacles M' index' L w' arule bufs0 k =
               (\<exists>d\<in>set (snd r). firstStation d \<le> real k * viewPointStep arule \<and>
                                 real k * viewPointStep arule \<le> lastStation d)))"
proof -
  from objects_summary[OF assms(1,2), of M index object tg0 vp0]
  obtain r where r: "objectsSweep M index rule object c w (so0, tg0, vp0) = Some r"
    and m: "map (\<lambda>d. (rangeStart d, rangeEnd d)) (snd r) =
         map (\<lambda>p. (real (fst p) * viewPointStep rule, real (snd p) * viewPointStep rule))
           (allRuns (objectsViolation M index w rule object c (fst (fromWCS w so0 (fst c, fst (snd c)))) (tg0, vp0)) (stationCount (viewPointStep rule) (length_w w)))"
    by blast
  note o = ranges_of_runs[OF assms(1) m]
  from alignment_summary[OF assms(3,4), of M' index' L w' bufs0]
  obtain ra where ra: "alignmentSweep M' index' L arule w' bufs0 = Some ra"
    and ma: "map (\<lambda>d. (firstStation d, lastStation d)) (snd ra) =
         map (\<lambda>p. (real (fst p) * viewPointStep arule, real (snd p) * viewPointStep arule))
           (allRuns (alignmentHasObstacles M' index' L w' arule bufs0) (stationCount (viewPointStep arule) (length_w w')))"
    and ne: "\<forall>d\<in>set (snd ra). keyFrames d \<noteq> []"
    by blast
  note a = ranges_of_runs[OF assms(3) ma]
  from r o have "\<exists>r. objectsSweep M index rule object c w (so0, tg0, vp0) = Some r \<and>
            sorted_wrt (\<lambda>d e. rangeEnd d < rangeStart e) (snd r) \<and>
            (\<forall>d\<in>set (snd r). rangeStart d \<le> rangeEnd d) \<and>
            (\<forall>k<stationCount (viewPointStep rule) (length_w w).
               objectsViolation M index w rule object c (fst (fromWCS w so0 (fst c, fst (snd c)))) (tg0, vp0) k =
               (\<exists>d\<in>set (snd r). rangeStart d \<le> real k * viewPointStep rule \<and>
                                 real k * viewPointStep rule \<le> rangeEnd d))"
    by blast
  moreover from ra a ne have "\<exists>r. alignmentSweep M' index' L arule w' bufs0 = Some r \<and>
            (\<forall>d\<in>set (snd r). keyFrames d \<noteq> []) \<and>
            sorted_wrt (\<lambda>d e. lastStation d < firstStation e) (snd r) \<and>
            (\<forall>d\<in>set (snd r). firstStation d \<le> lastStation d) \<and>
            (\<forall>k<stationCount (viewPointStep arule) (length_w w').
               alignmentHasObstacles M' index' L w' arule bufs0 k =
               (\<exists>d\<in>set (snd r). firstStation d \<le> real k * viewPointStep arule \<and>
                                 real k * viewPointStep arule \<le> lastStation d))"
    by blast
  ultimately show ?thesis by blast
qed

lemma scene_station: "fst (fromWCS (AlignmentWrapper_new (straight 4) FORWARD) (0, 0) (fst (3 :: real, 0 :: real, 0 :: real), fst (snd (3 :: real, 0 :: real, 0 :: real)))) = 3"
  by (simp add: scene_defs wrapper_defs)

lemma scene_side: "\<not> sideExcluded objectsRule (snd (fromWCS (AlignmentWrapper_new (straight 4) FORWARD) (0, 0) (fst (3 :: real, 0 :: real, 0 :: real), fst (snd (3 :: real, 0 :: real, 0 :: real)))))"
  by (simp add: sideExcluded_def objectsRule_def)

theorem sweep_range_invariants_witness:
  "0 < viewPointStep objectsRule \<and> 0 < viewPointStep alignmentRule \<and> 0 < objectStep alignmentRule \<and>
   (\<exists>r. objectsSweep Math3d_ref sceneIndex objectsRule sign (3, 0, 0) (AlignmentWrapper_new (straight 4) FORWARD) ((0, 0), (0, 0, 0), (0, 0, 0)) = Some r \<and>
            sorted_wrt (\<lambda>d e. rangeEnd d < rangeStart e) (snd r) \<and>
            (\<forall>d\<in>set (snd r). rangeStart d \<le> rangeEnd d) \<and>
            (\<forall>k<stationCount (viewPointStep objectsRule) (length_w (AlignmentWrapper_new (straight 4) FORWARD)).
               objectsViolation Math3d_ref sceneIndex (AlignmentWrapper_new (straight 4) FORWARD) objectsRule sign (3, 0, 0) 3 ((0, 0, 0), (0, 0, 0)) k =
               (\<exists>d\<in>set (snd r). rangeStart d \<le> real k * viewPointStep objectsRule \<and>
                                 real k * viewPointStep objectsRule \<le> rangeEnd d))) \<and>
         (\<exists>r. alignmentSweep Math3d_ref sceneIndex {3} alignmentRule (AlignmentWrapper_new (straight 3) FORWARD) ((0, 0, 0), (0, 0, 0)) = Some r \<and>
            (\<forall>d\<in>set (snd r). keyFrames d \<noteq> []) \<and>
            sorted_wrt (\<lambda>d e. lastStation d < firstStation e) (snd r) \<and>
            (\<forall>d\<in>set (snd r). firstStation d \<le> lastStation d) \<and>
            (\<forall>k<stationCount (viewPointStep alignmentRule) (length_w (AlignmentWrapper_new (straight 3) FORWARD)).
               alignmentHasObstacles Math3d_ref sceneIndex {3} (AlignmentWrapper_new (straight 3) FORWARD) alignmentRule ((0, 0, 0), (0, 0, 0)) k =
               (\<exists>d\<in>set (snd r). firstStation d \<le> real k * viewPointStep alignmentRule \<and>
                                 real k * viewPointStep alignmentRule \<le> lastStation d)))"
proof -
  have h1: "0 < viewPointStep objectsRule" by (simp add: objectsRule_def)
  have h3: "0 < viewPointStep alignmentRule" and h4: "0 < objectStep alignmentRule"
    by (simp_all add: alignmentRule_def)
  from sweep_range_invariants[OF h1 scene_side h3 h4,
      of Math3d_ref sceneIndex sign "(0, 0, 0)" "(0, 0, 0)" Math3d_ref sceneIndex "{3}" "AlignmentWrapper_new (straight 3) FORWARD" "((0, 0, 0), (0, 0, 0))"]
  show ?thesis unfolding scene_station using h1 h3 h4 by blast
qed






text \<open>
  C4, amended. For a model whose index buffers stay within their vertex buffers, the
  centre \<open>modelCenter\<close> computes is the plain arithmetic mean of the vertices the index
  buffers of all its meshes refer to (one term per index entry, no weighting by area),
  transformed by the model's matrix. A model that refers to no vertex, in particular one
  without mesh geometry, has no centre, and the sweep passes over an object without a
  centre: nothing is queried and no record is pushed for it.
\<close>

theorem modelCenter_plain_mean:
  assumes "list_all indicesInRange (geometries model)"
  shows "modelCenter M model =
           (if referencedVertices model = [] then NoCenter
            else Center (mat4_mulv3 M (matrix model) (vertexMean (referencedVertices model)))) \<and>
         (geometries model = [] \<longrightarrow> modelCenter M model = NoCenter) \<and>
         (modelCenter M model = NoCenter \<longrightarrow>
            objectsObject M index rule alignments model acc = Some (Inr acc))"
  using modelCenter_mean[OF assms, of M] modelCenter_no_geometry[of model M]
  by (simp add: objectsObject_def)

theorem modelCenter_plain_mean_witness:
  "list_all indicesInRange (geometries twoTriangles) \<and>
   modelCenter Math3d_ref twoTriangles = Center (2, 1/3, 0) \<and>
   modelCenter Math3d_ref (twoTriangles\<lparr>meshes := [\<lparr>geometry = None\<rparr>]\<rparr>) = NoCenter \<and>
   objectsObject Math3d_ref sceneIndex objectsRule [(AlignmentWrapper_new (straight 4) FORWARD)]
     (twoTriangles\<lparr>meshes := [\<lparr>geometry = None\<rparr>]\<rparr>) (((0, 0), (0, 0, 0), (0, 0, 0)), []) =
   Some (Inr (((0, 0), (0, 0, 0), (0, 0, 0)), []))"
proof -
  have h: "list_all indicesInRange (geometries twoTriangles)"
    by (simp add: geometries_def twoTriangles_def indicesInRange_def)
  have h': "list_all indicesInRange (geometries (twoTriangles\<lparr>meshes := [\<lparr>geometry = None\<rparr>]\<rparr>))"
    and g: "geometries (twoTriangles\<lparr>meshes := [\<lparr>geometry = None\<rparr>]\<rparr>) = []"
    by (simp_all add: geometries_def)
  have v: "mat4_mulv3 Math3d_ref (matrix twoTriangles) (vertexMean (referencedVertices twoTriangles))
           = (2, 1/3, 0)"
    by (simp add: vertexMean_def referencedVertices_def geometries_def twoTriangles_def vertexAt_def
        vec3_sum_def vec3_add_def vec3_mul_def Math3d_ref_def)
  have ne: "referencedVertices twoTriangles \<noteq> []"
    by (simp add: referencedVertices_def geometries_def twoTriangles_def)
  have e: "referencedVertices (twoTriangles\<lparr>meshes := [\<lparr>geometry = None\<rparr>]\<rparr>) = []"
    by (simp add: referencedVertices_def geometries_def)
  from modelCenter_plain_mean[OF h, of Math3d_ref sceneIndex objectsRule "[(AlignmentWrapper_new (straight 4) FORWARD)]"
         "(((0, 0), (0, 0, 0), (0, 0, 0)), [])"]
  have "modelCenter Math3d_ref twoTriangles =
          Center (mat4_mulv3 Math3d_ref (matrix twoTriangles) (vertexMean (referencedVertices twoTriangles)))"
    using ne by simp
  then have c1: "modelCenter Math3d_ref twoTriangles = Center (2, 1/3, 0)"
    unfolding v .
  from modelCenter_plain_mean[OF h', of Math3d_ref sceneIndex objectsRule "[(AlignmentWrapper_new (straight 4) FORWARD)]"
         "(((0, 0), (0, 0, 0), (0, 0, 0)), [])"]
  have c2: "modelCenter Math3d_ref (twoTriangles\<lparr>meshes := [\<lparr>geometry = None\<rparr>]\<rparr>) = NoCenter \<and>
   objectsObject Math3d_ref sceneIndex objectsRule [(AlignmentWrapper_new (straight 4) FORWARD)]
     (twoTriangles\<lparr>meshes := [\<lparr>geometry = None\<rparr>]\<rparr>) (((0, 0), (0, 0, 0), (0, 0, 0)), []) =
   Some (Inr (((0, 0), (0, 0, 0), (0, 0, 0)), []))"
    using g by blast
  from h c1 c2 show ?thesis by blast
qed


end
